theory Spec2Isabelle
  imports Main "HOL-Library.AList"
begin

section \<open>Gadget metadata: the document model\<close>

text \<open>
  The Go package \<open>types\<close> keeps a declarative description of a gadget
  (\<open>GadgetMetadata\<close>) consistent with the BTF type information of the compiled eBPF
  object (\<open>ebpf.CollectionSpec\<close>). \<open>Validate\<close> cross-checks the two and
  \<open>Populate\<close> fills the description from the object.

  Go maps are association lists here: the order of the list is the order in which a
  \<open>range\<close> loop visits the entries, a store is \<open>AList.update\<close> and a lookup is
  \<open>map_of\<close>. A map that may be \<open>nil\<close> is an \<open>option\<close>. The values of
  \<open>Annotations\<close> (\<open>interface{}\<close> in Go) are a type parameter.
\<close>

type_synonym Alignment = string
type_synonym EllipsisType = string

definition traceMapPrefix :: string where
  "traceMapPrefix = ''gadget_trace_map_''"

definition DefaultColumnWidth :: nat where
  "DefaultColumnWidth = 16"

definition AlignmenNone :: Alignment where "AlignmenNone = []"
definition AlignmentLeft :: Alignment where "AlignmentLeft = ''left''"
definition AlignmentRight :: Alignment where "AlignmentRight = ''right''"

definition EllipsisNone :: EllipsisType where "EllipsisNone = []"
definition EllipsisStart :: EllipsisType where "EllipsisStart = ''start''"
definition EllipsisMiddle :: EllipsisType where "EllipsisMiddle = ''middle''"
definition EllipsisEnd :: EllipsisType where "EllipsisEnd = ''end''"

record FieldAttributes =
  Width :: nat
  MinWidth :: nat
  MaxWidth :: nat
  Alignment :: Alignment
  Hidden :: bool
  Ellipsis :: EllipsisType
  Template :: string

record 'v Field =
  FieldName :: string
  FieldDescription :: string
  Attributes :: FieldAttributes
  Annotations :: "(string \<times> 'v) list option"

record 'v Struct =
  Fields :: "'v Field list"

record Tracer =
  MapName :: string
  StructName :: string

record 'v GadgetMetadata =
  Name :: string
  Description :: string
  Tracers :: "(string \<times> Tracer) list option"
  Structs :: "(string \<times> 'v Struct) list option"

text \<open>Reading a Go map: a \<open>nil\<close> map has no entry and length 0.\<close>

definition entries :: "('k \<times> 'a) list option \<Rightarrow> ('k \<times> 'a) list" where
  "entries m = (case m of None \<Rightarrow> [] | Some al \<Rightarrow> al)"

definition lookup :: "('k \<times> 'a) list option \<Rightarrow> 'k \<Rightarrow> 'a option" where
  "lookup m k = map_of (entries m) k"

section \<open>The compiled object: BTF types and maps\<close>

text \<open>
  A \<open>btf.Type\<close> is a pointer to one of the BTF kinds, and a type refers to other
  types through such pointers (\<open>Typedef.Type\<close>, \<open>Member.Type\<close>, \<open>Var.Type\<close>).
  Pointers are addresses (\<open>type_id\<close>) into a store \<open>btf\<close> that gives the type at
  every address, so that a chain of typedefs may come back to itself, as a graph of Go
  pointers may. Only the kinds and fields this package reads are kept; every other kind
  is \<open>btf_Other\<close> with its \<open>TypeName\<close>.
\<close>

type_synonym type_id = nat

datatype IntEncoding = btf_Unsigned | btf_Signed | btf_Char | btf_Bool | btf_EncodingOther

record Member =
  MemberName :: string
  MemberType :: type_id

datatype btf_Type =
    btf_Void
  | btf_Int string nat IntEncoding
  | btf_Struct string "Member list"
  | btf_Typedef string type_id
  | btf_Var string type_id
  | btf_Other string

datatype MapType = RingBuf | PerfEventArray | OtherMapType string

record MapSpec =
  MapSpecName :: string
  MapSpecType :: MapType
  MapSpecValue :: "type_id option"

record CollectionSpec =
  Maps :: "(string \<times> MapSpec) list"
  Types :: "type_id list"
  btf :: "type_id \<Rightarrow> btf_Type"

text \<open>\<open>Type.TypeName()\<close>: the name of a named type, empty for the others.\<close>

fun TypeName :: "btf_Type \<Rightarrow> string" where
  "TypeName btf_Void = []"
| "TypeName (btf_Int n _ _) = n"
| "TypeName (btf_Struct n _) = n"
| "TypeName (btf_Typedef n _) = n"
| "TypeName (btf_Var n _) = n"
| "TypeName (btf_Other n) = n"

section \<open>Errors\<close>

datatype btf_error = ErrNotFound | ErrMultipleMatches

datatype error =
    GadgetNameRequired
  | OnlyOneTracerAllowed
  | TracerMissingMapName string
  | TracerMissingStructName string
  | TracerUnknownStruct string string
  | MapNotFound string
  | MapWrongType string MapType
  | MapNoValueBTF string
  | MapValueNotStruct string
  | StructLookupFailed string btf_error
  | FieldNotFound string string
  | Wrapped string error
  | MultiError "error list"

text \<open>
  \<open>multierror.Append(err, e)\<close> of hashicorp/go-multierror: the result is always a
  \<open>*multierror.Error\<close>; a \<open>nil\<close> first argument starts an empty list, a first
  argument that is no multierror becomes its first element, and an appended multierror
  is flattened into the list.
\<close>

fun multierror_Errors :: "error option \<Rightarrow> error list" where
  "multierror_Errors None = []"
| "multierror_Errors (Some (MultiError es)) = es"
| "multierror_Errors (Some e) = [e]"

fun multierror_flatten :: "error \<Rightarrow> error list" where
  "multierror_flatten (MultiError es) = es"
| "multierror_flatten e = [e]"

definition multierror_Append :: "error option \<Rightarrow> error \<Rightarrow> error option" where
  "multierror_Append result e = Some (MultiError (multierror_Errors result @ multierror_flatten e))"

section \<open>Type resolver and width inference\<close>

text \<open>
  Modelled from the spec: the constants \<open>columns.MaxChars*\<close> of package
  \<open>pkg/columns\<close>, which is not among the sources: the maximal number of characters of
  a value of each kind (digits, with the sign for the signed kinds; the longer of
  \<open>true\<close> and \<open>false\<close>; one character).
\<close>

definition MaxCharsInt8 :: nat where "MaxCharsInt8 = 4"
definition MaxCharsInt16 :: nat where "MaxCharsInt16 = 6"
definition MaxCharsInt32 :: nat where "MaxCharsInt32 = 11"
definition MaxCharsInt64 :: nat where "MaxCharsInt64 = 20"
definition MaxCharsUint8 :: nat where "MaxCharsUint8 = 3"
definition MaxCharsUint16 :: nat where "MaxCharsUint16 = 5"
definition MaxCharsUint32 :: nat where "MaxCharsUint32 = 10"
definition MaxCharsUint64 :: nat where "MaxCharsUint64 = 20"
definition MaxCharsBool :: nat where "MaxCharsBool = 5"
definition MaxCharsChar :: nat where "MaxCharsChar = 1"

text \<open>
  Modelled from the spec: the constant \<open>gadgets.MntNsIdTypeName\<close> of package
  \<open>pkg/gadgets\<close>, which is not among the sources: the reserved name of the type that
  marks a mount namespace id. Only the evaluation of the examples uses its value.
\<close>

definition MntNsIdTypeName :: string where
  "MntNsIdTypeName = ''gadget_mntns_id''"

text \<open>
  \<open>getUnderlyingType\<close> recurses through typedefs with no bound on the depth, so on a
  chain that never leaves the typedefs the call does not return: the function is
  partial, \<open>None\<close> is "no return". The argument is the typedef's \<open>Type\<close> field. The
  Go function returns a type and an error; the error is \<open>nil\<close> on every return.
\<close>

partial_function (option) getUnderlyingType :: "(type_id \<Rightarrow> btf_Type) \<Rightarrow> type_id \<Rightarrow> (type_id \<times> error option) option" where
  "getUnderlyingType b tfType =
     (case b tfType of
        btf_Typedef n typedMember \<Rightarrow> getUnderlyingType b typedMember
      | _ \<Rightarrow> Some (tfType, None))"

declare getUnderlyingType.simps [code]

text \<open>The width of an integer type once its kind is known (the inner switches).\<close>

definition intColumnSize :: "nat \<Rightarrow> IntEncoding \<Rightarrow> nat" where
  "intColumnSize sz enc =
     (case enc of
        btf_Signed \<Rightarrow>
          (if sz = 1 then MaxCharsInt8 else if sz = 2 then MaxCharsInt16
           else if sz = 4 then MaxCharsInt32 else if sz = 8 then MaxCharsInt64
           else DefaultColumnWidth)
      | btf_Unsigned \<Rightarrow>
          (if sz = 1 then MaxCharsUint8 else if sz = 2 then MaxCharsUint16
           else if sz = 4 then MaxCharsUint32 else if sz = 8 then MaxCharsUint64
           else DefaultColumnWidth)
      | btf_Bool \<Rightarrow> MaxCharsBool
      | btf_Char \<Rightarrow> MaxCharsChar
      | btf_EncodingOther \<Rightarrow> DefaultColumnWidth)"

partial_function (option) getColumnSize :: "(type_id \<Rightarrow> btf_Type) \<Rightarrow> type_id \<Rightarrow> nat option" where
  "getColumnSize b typ =
     (case b typ of
        btf_Int n sz enc \<Rightarrow> Some (intColumnSize sz enc)
      | btf_Typedef n typedMember \<Rightarrow>
          (case getUnderlyingType b typedMember of
             None \<Rightarrow> None
           | Some (typ', _) \<Rightarrow> getColumnSize b typ')
      | _ \<Rightarrow> Some DefaultColumnWidth)"

declare getColumnSize.simps [code]

section \<open>Trace-map locator\<close>

text \<open>\<open>strings.HasPrefix\<close> and \<open>strings.TrimPrefix\<close>.\<close>

definition HasPrefix :: "string \<Rightarrow> string \<Rightarrow> bool" where
  "HasPrefix s p = (take (length p) s = p)"

definition TrimPrefix :: "string \<Rightarrow> string \<Rightarrow> string" where
  "TrimPrefix s p = (if HasPrefix s p then drop (length p) s else s)"

text \<open>
  The loop of \<open>getGadgetIdentByPrefix\<close> over \<open>spec.Types.Iterate()\<close>: the list
  \<open>Types\<close> is the order in which the iterator yields the types.
\<close>

fun getGadgetIdentByPrefix_loop :: "(type_id \<Rightarrow> btf_Type) \<Rightarrow> type_id list \<Rightarrow> string \<Rightarrow> string" where
  "getGadgetIdentByPrefix_loop b [] prefix = []"
| "getGadgetIdentByPrefix_loop b (t # ts) prefix =
     (case b t of
        btf_Var n _ \<Rightarrow>
          (if HasPrefix n prefix then TrimPrefix n prefix
           else getGadgetIdentByPrefix_loop b ts prefix)
      | _ \<Rightarrow> getGadgetIdentByPrefix_loop b ts prefix)"

definition getGadgetIdentByPrefix :: "CollectionSpec \<Rightarrow> string \<Rightarrow> string" where
  "getGadgetIdentByPrefix spec prefix = getGadgetIdentByPrefix_loop (btf spec) (Types spec) prefix"

text \<open>The result is a \<open>*ebpf.MapSpec\<close>: \<open>None\<close> is \<open>nil\<close>.\<close>

definition getTracerMapFromeBPF :: "CollectionSpec \<Rightarrow> MapSpec option" where
  "getTracerMapFromeBPF spec = map_of (Maps spec) (getGadgetIdentByPrefix spec traceMapPrefix)"

section \<open>Validator\<close>

definition validateTraceMap :: "(type_id \<Rightarrow> btf_Type) \<Rightarrow> MapSpec \<Rightarrow> error option" where
  "validateTraceMap b traceMap =
     (if MapSpecType traceMap \<noteq> RingBuf \<and> MapSpecType traceMap \<noteq> PerfEventArray
      then Some (MapWrongType (MapSpecName traceMap) (MapSpecType traceMap))
      else case MapSpecValue traceMap of
        None \<Rightarrow> Some (MapNoValueBTF (MapSpecName traceMap))
      | Some v \<Rightarrow>
          (case b v of
             btf_Struct _ _ \<Rightarrow> None
           | _ \<Rightarrow> Some (MapValueNotStruct (MapSpecName traceMap))))"

text \<open>
  \<open>Validate\<close>, \<open>validateTracers\<close> and \<open>validateStructs\<close> receive the document and the
  compiled object by pointer. They are state transformers on the pair of the two
  objects: each returns its error together with the objects as it leaves them.
\<close>

type_synonym 'v world = "'v GadgetMetadata \<times> CollectionSpec"

fun validateTracers_loop :: "'v world \<Rightarrow> (string \<times> Tracer) list \<Rightarrow> error option \<Rightarrow> error option \<times> 'v world" where
  "validateTracers_loop w [] result = (result, w)"
| "validateTracers_loop w ((name, tracer) # rest) result =
     (let result1 = (if MapName tracer = [] then multierror_Append result (TracerMissingMapName name)
                     else result);
          result2 = (if StructName tracer = [] then multierror_Append result1 (TracerMissingStructName name)
                     else result1);
          result3 = (case lookup (Structs (fst w)) (StructName tracer) of
                       None \<Rightarrow> multierror_Append result2 (TracerUnknownStruct name (StructName tracer))
                     | Some _ \<Rightarrow> result2)
      in case map_of (Maps (snd w)) (MapName tracer) of
           None \<Rightarrow> validateTracers_loop w rest (multierror_Append result3 (MapNotFound (MapName tracer)))
         | Some ebpfm \<Rightarrow>
             (case validateTraceMap (btf (snd w)) ebpfm of
                Some err \<Rightarrow> validateTracers_loop w rest (multierror_Append result3 err)
              | None \<Rightarrow> validateTracers_loop w rest result3))"

definition validateTracers :: "'v world \<Rightarrow> error option \<times> 'v world" where
  "validateTracers w =
     (let result = (if length (entries (Tracers (fst w))) > 1
                    then multierror_Append None OnlyOneTracerAllowed else None)
      in validateTracers_loop w (entries (Tracers (fst w))) result)"

text \<open>
  \<open>spec.Types.TypeByName(name, &btfStruct)\<close> of cilium/ebpf with a \<open>*btf.Struct\<close>
  target: the one structure of that name; \<open>ErrNotFound\<close> when there is none and
  \<open>ErrMultipleMatches\<close> when there are several.
\<close>

fun structNamed :: "string \<Rightarrow> btf_Type \<Rightarrow> Member list option" where
  "structNamed name (btf_Struct n ms) = (if n = name then Some ms else None)"
| "structNamed name _ = None"

definition TypeByName :: "CollectionSpec \<Rightarrow> string \<Rightarrow> btf_error + Member list" where
  "TypeByName spec name =
     (case List.map_filter (\<lambda>t. structNamed name (btf spec t)) (Types spec) of
        [] \<Rightarrow> Inl ErrNotFound
      | [ms] \<Rightarrow> Inr ms
      | _ \<Rightarrow> Inl ErrMultipleMatches)"

text \<open>The inner loop of \<open>validateStructs\<close> over the keys of \<open>mapStructFields\<close>.\<close>

fun validateStructs_fields :: "(string \<times> Member) list \<Rightarrow> string \<Rightarrow> string list \<Rightarrow> error option \<Rightarrow> error option" where
  "validateStructs_fields btfStructFields name [] result = result"
| "validateStructs_fields btfStructFields name (fieldName # rest) result =
     validateStructs_fields btfStructFields name rest
       (case map_of btfStructFields fieldName of
          None \<Rightarrow> multierror_Append result (FieldNotFound fieldName name)
        | Some _ \<Rightarrow> result)"

fun validateStructs_loop :: "'v world \<Rightarrow> (string \<times> 'v Struct) list \<Rightarrow> error option \<Rightarrow> error option \<times> 'v world" where
  "validateStructs_loop w [] result = (result, w)"
| "validateStructs_loop w ((name, mapStruct) # rest) result =
     (case TypeByName (snd w) name of
        Inl err \<Rightarrow> validateStructs_loop w rest (multierror_Append result (StructLookupFailed name err))
      | Inr members \<Rightarrow>
          (let mapStructFields = fold (\<lambda>f. AList.update (FieldName f) f) (Fields mapStruct) [];
               btfStructFields = fold (\<lambda>m. AList.update (MemberName m) m) members []
           in validateStructs_loop w rest
                (validateStructs_fields btfStructFields name (map fst mapStructFields) result)))"

definition validateStructs :: "'v world \<Rightarrow> error option \<times> 'v world" where
  "validateStructs w = validateStructs_loop w (entries (Structs (fst w))) None"

definition Validate :: "'v world \<Rightarrow> error option \<times> 'v world" where
  "Validate w =
     (let result = (if Name (fst w) = [] then multierror_Append None GadgetNameRequired else None);
          (err1, w1) = validateTracers w;
          result1 = (case err1 of Some e \<Rightarrow> multierror_Append result e | None \<Rightarrow> result);
          (err2, w2) = validateStructs w1;
          result2 = (case err2 of Some e \<Rightarrow> multierror_Append result1 e | None \<Rightarrow> result1)
      in (result2, w2))"

section \<open>Populator\<close>

text \<open>
  \<open>Populate\<close> changes the document in place and returns an error: the functions
  return the error and the document as the call leaves it. They call
  \<open>getColumnSize\<close>, so they are partial as well: \<open>None\<close> is a call that does not
  return normally (endless recursion in the type resolver, or a panic: a failed type
  assertion, a store into a \<open>nil\<close> map).
\<close>

definition newField :: "string \<Rightarrow> nat \<Rightarrow> 'v Field" where
  "newField name w =
     \<lparr>FieldName = name,
      FieldDescription = ''TODO: Fill field description'',
      Attributes = \<lparr>Width = w, MinWidth = 0, MaxWidth = 0, Alignment = AlignmentLeft,
                    Hidden = False, Ellipsis = EllipsisEnd, Template = []\<rparr>,
      Annotations = None\<rparr>"

fun populateStruct_loop :: "(type_id \<Rightarrow> btf_Type) \<Rightarrow> string set \<Rightarrow> Member list \<Rightarrow> 'v Field list \<Rightarrow> 'v Field list option" where
  "populateStruct_loop b existingFields [] flds = Some flds"
| "populateStruct_loop b existingFields (member # rest) flds =
     (if MemberName member = ''timestamp'' then populateStruct_loop b existingFields rest flds
      else if TypeName (b (MemberType member)) = MntNsIdTypeName
        then populateStruct_loop b existingFields rest flds
      else if MemberName member \<in> existingFields
        then populateStruct_loop b existingFields rest flds
      else case getColumnSize b (MemberType member) of
             None \<Rightarrow> None
           | Some w \<Rightarrow>
               populateStruct_loop b existingFields rest (flds @ [newField (MemberName member) w]))"

definition populateStruct :: "(type_id \<Rightarrow> btf_Type) \<Rightarrow> 'v GadgetMetadata \<Rightarrow> string \<Rightarrow> Member list \<Rightarrow> (error option \<times> 'v GadgetMetadata) option" where
  "populateStruct b m btfStructName members =
     (let m1 = (if Structs m = None then m\<lparr>Structs := Some []\<rparr> else m);
          gadgetStruct = (case lookup (Structs m1) btfStructName of
                            None \<Rightarrow> \<lparr>Fields = []\<rparr>
                          | Some s \<Rightarrow> s);
          existingFields = set (map FieldName (Fields gadgetStruct))
      in case populateStruct_loop b existingFields members (Fields gadgetStruct) of
           None \<Rightarrow> None
         | Some flds \<Rightarrow>
             Some (None, m1\<lparr>Structs :=
               Some (AList.update btfStructName (gadgetStruct\<lparr>Fields := flds\<rparr>) (entries (Structs m1)))\<rparr>))"

definition populateTracers :: "'v GadgetMetadata \<Rightarrow> CollectionSpec \<Rightarrow> (error option \<times> 'v GadgetMetadata) option" where
  "populateTracers m spec =
     (case getTracerMapFromeBPF spec of
        None \<Rightarrow> Some (None, m)
      | Some traceMap \<Rightarrow>
          (case validateTraceMap (btf spec) traceMap of
             Some err \<Rightarrow> Some (Some (Wrapped ''trace map is invalid'' err), m)
           | None \<Rightarrow>
               (case MapSpecValue traceMap of
                  None \<Rightarrow> None
                | Some v \<Rightarrow>
                    (case btf spec v of
                       btf_Struct traceMapStructName members \<Rightarrow>
                         (let found = list_ex (\<lambda>(_, t). MapName t = MapSpecName traceMap) (entries (Tracers m))
                          in case (if \<not> found
                                   then (case Tracers m of
                                           None \<Rightarrow> None
                                         | Some al \<Rightarrow>
                                             Some (m\<lparr>Tracers := Some (AList.update (MapSpecName traceMap)
                                               \<lparr>MapName = MapSpecName traceMap, StructName = traceMapStructName\<rparr> al)\<rparr>))
                                   else Some m) of
                               None \<Rightarrow> None
                             | Some m1 \<Rightarrow>
                                 (case populateStruct (btf spec) m1 traceMapStructName members of
                                    None \<Rightarrow> None
                                  | Some (Some err, m2) \<Rightarrow> Some (Some (Wrapped ''populating struct'' err), m2)
                                  | Some (None, m2) \<Rightarrow> Some (None, m2)))
                     | _ \<Rightarrow> None))))"

definition Populate :: "'v GadgetMetadata \<Rightarrow> CollectionSpec \<Rightarrow> (error option \<times> 'v GadgetMetadata) option" where
  "Populate m spec =
     (let m1 = (if Name m = [] then m\<lparr>Name := ''TODO: Fill the gadget name''\<rparr> else m);
          m2 = (if Description m1 = [] then m1\<lparr>Description := ''TODO: Fill the gadget description''\<rparr> else m1);
          m3 = (if Tracers m2 = None then m2\<lparr>Tracers := Some []\<rparr> else m2);
          m4 = (if Structs m3 = None then m3\<lparr>Structs := Some []\<rparr> else m3)
      in case populateTracers m4 spec of
           None \<Rightarrow> None
         | Some (Some err, m5) \<Rightarrow> Some (Some (Wrapped ''handling trace maps'' err), m5)
         | Some (None, m5) \<Rightarrow> Some (None, m5))"

section \<open>Notions used in the statements\<close>

text \<open>
  \<open>resolvesIn b k t\<close> follows the alias chain that starts at \<open>t\<close> for at most
  \<open>k\<close> typedef steps: it is the first entry that is no typedef, if the chain reaches
  one within \<open>k\<close> steps.
\<close>

fun resolvesIn :: "(type_id \<Rightarrow> btf_Type) \<Rightarrow> nat \<Rightarrow> type_id \<Rightarrow> type_id option" where
  "resolvesIn b 0 t = (case b t of btf_Typedef _ _ \<Rightarrow> None | _ \<Rightarrow> Some t)"
| "resolvesIn b (Suc k) t = (case b t of btf_Typedef _ t' \<Rightarrow> resolvesIn b k t' | _ \<Rightarrow> Some t)"

definition isVar :: "btf_Type \<Rightarrow> bool" where
  "isVar ty = (case ty of btf_Var _ _ \<Rightarrow> True | _ \<Rightarrow> False)"

definition isStruct :: "btf_Type \<Rightarrow> bool" where
  "isStruct ty = (case ty of btf_Struct _ _ \<Rightarrow> True | _ \<Rightarrow> False)"

text \<open>
  \<open>synthesized b existingFields member\<close>: the member passes the three skip tests of
  the loop of \<open>populateStruct\<close>, so the loop appends a field for it.
\<close>

definition synthesized :: "(type_id \<Rightarrow> btf_Type) \<Rightarrow> string set \<Rightarrow> Member \<Rightarrow> bool" where
  "synthesized b existingFields member \<longleftrightarrow>
     MemberName member \<noteq> ''timestamp''
     \<and> TypeName (b (MemberType member)) \<noteq> MntNsIdTypeName
     \<and> MemberName member \<notin> existingFields"

text \<open>
  \<open>structOf m name\<close> is \<open>m.Structs[name]\<close> as Go reads it: the zero \<open>Struct\<close>
  when the key is missing or the map is \<open>nil\<close>.
\<close>

definition structOf :: "'v GadgetMetadata \<Rightarrow> string \<Rightarrow> 'v Struct" where
  "structOf m name = (case lookup (Structs m) name of None \<Rightarrow> \<lparr>Fields = []\<rparr> | Some s \<Rightarrow> s)"

text \<open>
  \<open>initialized m\<close> is the document after the first four statements of
  \<open>Populate\<close>: placeholders for an empty name and description, empty maps for
  \<open>nil\<close> ones.
\<close>

definition initialized :: "'v GadgetMetadata \<Rightarrow> 'v GadgetMetadata" where
  "initialized m =
     m\<lparr>Name := (if Name m = [] then ''TODO: Fill the gadget name'' else Name m),
       Description := (if Description m = [] then ''TODO: Fill the gadget description'' else Description m),
       Tracers := Some (entries (Tracers m)),
       Structs := Some (entries (Structs m))\<rparr>"

text \<open>
  The errors that one iteration of the loop of \<open>validateTracers\<close> appends for a
  tracer, and those that one iteration of the loop of \<open>validateStructs\<close> appends for
  a structure; \<open>findings w\<close> is the list of errors that the error value returned by
  \<open>Validate\<close> holds.
\<close>

definition tracerFindings :: "'v world \<Rightarrow> string \<times> Tracer \<Rightarrow> error list" where
  "tracerFindings w nt =
     (case nt of (name, tracer) \<Rightarrow>
        (if MapName tracer = [] then [TracerMissingMapName name] else [])
        @ (if StructName tracer = [] then [TracerMissingStructName name] else [])
        @ (case lookup (Structs (fst w)) (StructName tracer) of
             None \<Rightarrow> [TracerUnknownStruct name (StructName tracer)]
           | Some _ \<Rightarrow> [])
        @ (case map_of (Maps (snd w)) (MapName tracer) of
             None \<Rightarrow> [MapNotFound (MapName tracer)]
           | Some ebpfm \<Rightarrow>
               (case validateTraceMap (btf (snd w)) ebpfm of Some err \<Rightarrow> [err] | None \<Rightarrow> [])))"

definition structFindings :: "'v world \<Rightarrow> string \<times> 'v Struct \<Rightarrow> error list" where
  "structFindings w ns =
     (case ns of (name, mapStruct) \<Rightarrow>
        (case TypeByName (snd w) name of
           Inl err \<Rightarrow> [StructLookupFailed name err]
         | Inr members \<Rightarrow>
             map (\<lambda>fieldName. FieldNotFound fieldName name)
               (filter (\<lambda>fieldName. fieldName \<notin> MemberName ` set members)
                  (map fst (fold (\<lambda>f. AList.update (FieldName f) f) (Fields mapStruct) [])))))"

definition findings :: "'v world \<Rightarrow> error list" where
  "findings w = multierror_Errors (fst (Validate w))"

section \<open>Example objects\<close>

text \<open>
  A compiled object with the structure \<open>event_t\<close> (members \<open>pid\<close>, \<open>comm\<close>,
  \<open>timestamp\<close> and a mount namespace id), the marker variable of the map
  \<open>events\<close>, a structure whose name carries the marker prefix, and a typedef of
  \<open>event_t\<close>. The addresses 12 to 16 hold a type that bears the reserved name of the
  mount namespace id, a typedef of it, a typedef of the typedef at address 8, the
  structure \<open>ns_event\<close> with a member of each of these types and one of the type
  at address 8, and the marker variable of the map \<open>ns\<close>.
\<close>

definition ex_btf :: "type_id \<Rightarrow> btf_Type" where
  "ex_btf = (\<lambda>_. btf_Void)
     (1 := btf_Int ''unsigned int'' 4 btf_Unsigned,
      2 := btf_Typedef ''__u32'' 1,
      3 := btf_Int ''char'' 1 btf_Char,
      4 := btf_Other [],
      5 := btf_Int ''unsigned long long'' 8 btf_Unsigned,
      6 := btf_Typedef ''__u64'' 5,
      7 := btf_Struct ''event_t''
             [\<lparr>MemberName = ''pid'', MemberType = 2\<rparr>,
              \<lparr>MemberName = ''comm'', MemberType = 4\<rparr>,
              \<lparr>MemberName = ''timestamp'', MemberType = 6\<rparr>,
              \<lparr>MemberName = ''mntns_id'', MemberType = 8\<rparr>],
      8 := btf_Typedef MntNsIdTypeName 6,
      9 := btf_Var ''gadget_trace_map_events'' 0,
      10 := btf_Struct ''gadget_trace_map_fake'' [],
      11 := btf_Typedef ''event_alias'' 7,
      12 := btf_Int MntNsIdTypeName 8 btf_Unsigned,
      13 := btf_Typedef ''ns_alias'' 12,
      14 := btf_Typedef ''mntns_alias'' 8,
      15 := btf_Struct ''ns_event''
              [\<lparr>MemberName = ''ns'', MemberType = 13\<rparr>,
               \<lparr>MemberName = ''mnt'', MemberType = 14\<rparr>,
               \<lparr>MemberName = ''direct'', MemberType = 8\<rparr>],
      16 := btf_Var ''gadget_trace_map_ns'' 0)"

definition ex_events :: MapSpec where
  "ex_events = \<lparr>MapSpecName = ''events'', MapSpecType = RingBuf, MapSpecValue = Some 7\<rparr>"

text \<open>A second map, whose value type is the typedef of \<open>event_t\<close>.\<close>

definition ex_aliased :: MapSpec where
  "ex_aliased = \<lparr>MapSpecName = ''aliased'', MapSpecType = RingBuf, MapSpecValue = Some 11\<rparr>"

definition ex_spec :: CollectionSpec where
  "ex_spec = \<lparr>Maps = [(''events'', ex_events), (''aliased'', ex_aliased)],
              Types = [1, 2, 3, 4, 5, 6, 7, 8, 10, 9, 11],
              btf = ex_btf\<rparr>"

text \<open>A store in which the typedef at address 0 is an alias of itself.\<close>

definition ex_cyclic :: "type_id \<Rightarrow> btf_Type" where
  "ex_cyclic = (\<lambda>_. btf_Typedef ''loop'' 0)"

text \<open>
  A compiled object with no variable in its type table and a map stored under the empty
  name.
\<close>

definition ex_unnamed :: MapSpec where
  "ex_unnamed = \<lparr>MapSpecName = [], MapSpecType = RingBuf, MapSpecValue = Some 7\<rparr>"

definition ex_unmarked :: CollectionSpec where
  "ex_unmarked = \<lparr>Maps = [([], ex_unnamed)], Types = [1, 2, 3, 4, 5, 6, 7, 8, 10, 11], btf = ex_btf\<rparr>"

text \<open>
  Documents: an empty one; what \<open>Populate\<close> makes of it on \<open>ex_spec\<close>; one whose
  tracer \<open>events\<close> is bound to another map than the one the object marks; one with
  no name, two tracers and a field that \<open>event_t\<close> does not have; one whose tracer
  uses the map \<open>aliased\<close>.
\<close>

definition ex_doc :: "unit GadgetMetadata" where
  "ex_doc = \<lparr>Name = [], Description = [], Tracers = None, Structs = None\<rparr>"

definition ex_populated :: "unit GadgetMetadata" where
  "ex_populated =
     \<lparr>Name = ''TODO: Fill the gadget name'',
      Description = ''TODO: Fill the gadget description'',
      Tracers = Some [(''events'', \<lparr>MapName = ''events'', StructName = ''event_t''\<rparr>)],
      Structs = Some [(''event_t'', \<lparr>Fields = [newField ''pid'' 10, newField ''comm'' 16]\<rparr>)]\<rparr>"

definition ex_clash :: "unit GadgetMetadata" where
  "ex_clash =
     \<lparr>Name = ''gadget'', Description = ''a gadget'',
      Tracers = Some [(''events'', \<lparr>MapName = ''other_map'', StructName = ''other_t''\<rparr>)],
      Structs = Some [(''other_t'', \<lparr>Fields = []\<rparr>)]\<rparr>"

definition ex_bad :: "unit GadgetMetadata" where
  "ex_bad = \<lparr>Name = [], Description = [],
     Tracers = Some [(''first'', \<lparr>MapName = ''events'', StructName = ''event_t''\<rparr>),
                     (''second'', \<lparr>MapName = ''events'', StructName = ''event_t''\<rparr>)],
     Structs = Some [(''event_t'', \<lparr>Fields = [newField ''pid'' 10, newField ''missing_field'' 16]\<rparr>)]\<rparr>"

definition ex_alias_doc :: "unit GadgetMetadata" where
  "ex_alias_doc = \<lparr>Name = ''gadget'', Description = [],
     Tracers = Some [(''aliased'', \<lparr>MapName = ''aliased'', StructName = ''event_t''\<rparr>)],
     Structs = Some [(''event_t'', \<lparr>Fields = []\<rparr>)]\<rparr>"

text \<open>
  A compiled object whose map \<open>broken\<close> is a hash map without a value type, and a
  document whose only tracer uses that map.
\<close>

definition ex_broken :: MapSpec where
  "ex_broken = \<lparr>MapSpecName = ''broken'', MapSpecType = OtherMapType ''Hash'', MapSpecValue = None\<rparr>"

definition ex_broken_spec :: CollectionSpec where
  "ex_broken_spec = \<lparr>Maps = [(''broken'', ex_broken)], Types = [1, 2, 3, 4, 5, 6, 7, 8], btf = ex_btf\<rparr>"

definition ex_broken_doc :: "unit GadgetMetadata" where
  "ex_broken_doc = \<lparr>Name = ''gadget'', Description = [],
     Tracers = Some [(''broken'', \<lparr>MapName = ''broken'', StructName = ''event_t''\<rparr>)],
     Structs = Some [(''event_t'', \<lparr>Fields = []\<rparr>)]\<rparr>"

text \<open>A compiled object that marks the map \<open>ns\<close>, whose value is \<open>ns_event\<close>.\<close>

definition ex_ns :: MapSpec where
  "ex_ns = \<lparr>MapSpecName = ''ns'', MapSpecType = PerfEventArray, MapSpecValue = Some 15\<rparr>"

definition ex_ns_spec :: CollectionSpec where
  "ex_ns_spec = \<lparr>Maps = [(''ns'', ex_ns)], Types = [5, 6, 8, 12, 13, 14, 15, 16], btf = ex_btf\<rparr>"

section \<open>Unfolding the definitions on the examples\<close>

lemmas ex_defs = ex_spec_def ex_btf_def ex_events_def ex_aliased_def ex_bad_def ex_alias_doc_def
  ex_doc_def ex_populated_def ex_clash_def ex_unmarked_def ex_unnamed_def
  ex_broken_def ex_broken_spec_def ex_broken_doc_def ex_ns_def ex_ns_spec_def

lemmas validate_defs = Validate_def validateTracers_def validateStructs_def validateTraceMap_def
  TypeByName_def List.map_filter_def multierror_Append_def lookup_def entries_def newField_def

lemmas populate_defs = Populate_def populateTracers_def populateStruct_def validateTraceMap_def
  lookup_def entries_def getColumnSize.simps getUnderlyingType.simps intColumnSize_def
  MaxCharsUint32_def MaxCharsUint64_def DefaultColumnWidth_def getTracerMapFromeBPF_def getGadgetIdentByPrefix_def
  traceMapPrefix_def HasPrefix_def TrimPrefix_def MntNsIdTypeName_def

section \<open>Type resolver: when it returns\<close>

lemma getUnderlyingType_resolves:
  "resolvesIn b k t = Some u \<Longrightarrow> getUnderlyingType b t = Some (u, None)"
proof (induction k arbitrary: t)
  case 0
  then show ?case
    by (subst getUnderlyingType.simps) (simp split: btf_Type.splits)
next
  case (Suc k)
  then show ?case
    by (subst getUnderlyingType.simps) (simp split: btf_Type.splits)
qed

lemma getUnderlyingType_returns:
  assumes "getUnderlyingType b t = Some r"
  shows "\<exists>k. resolvesIn b k t = Some (fst r) \<and> snd r = None"
proof (rule getUnderlyingType.raw_induct
    [where P = "\<lambda>b t r. \<exists>k. resolvesIn b k t = Some (fst r) \<and> snd r = None", OF _ assms])
  fix getU :: "(type_id \<Rightarrow> btf_Type) \<Rightarrow> type_id \<Rightarrow> (type_id \<times> error option) option"
  fix b t r
  assume IH: "\<And>b t r. getU b t = Some r \<Longrightarrow> \<exists>k. resolvesIn b k t = Some (fst r) \<and> snd r = None"
  assume step: "(case b t of btf_Typedef n typedMember \<Rightarrow> getU b typedMember | _ \<Rightarrow> Some (t, None)) = Some r"
  show "\<exists>k. resolvesIn b k t = Some (fst r) \<and> snd r = None"
  proof (cases "b t")
    case (btf_Typedef n t')
    with step have "getU b t' = Some r" by simp
    from IH[OF this] obtain k where "resolvesIn b k t' = Some (fst r)" "snd r = None" by blast
    with btf_Typedef have "resolvesIn b (Suc k) t = Some (fst r) \<and> snd r = None" by simp
    then show ?thesis by blast
  qed (use step in \<open>auto intro!: exI[of _ 0]\<close>)
qed

lemma resolvesIn_cyclic: "resolvesIn ex_cyclic k t = None"
  by (induction k arbitrary: t) (auto simp: ex_cyclic_def)

text \<open>
  C4, as amended. Alias resolution returns exactly when the alias chain reaches an
  entry that is no typedef after finitely many steps; it then returns that entry with
  a \<open>nil\<close> error. There is no bound on the depth and no error for a malformed chain:
  on a chain that never leaves the typedefs the call does not return.
\<close>

theorem getUnderlyingType_returns_iff_chain_ends:
  "getUnderlyingType b t = Some r \<longleftrightarrow> (\<exists>k. resolvesIn b k t = Some (fst r)) \<and> snd r = None"
proof
  assume "getUnderlyingType b t = Some r"
  then show "(\<exists>k. resolvesIn b k t = Some (fst r)) \<and> snd r = None"
    using getUnderlyingType_returns by blast
next
  assume "(\<exists>k. resolvesIn b k t = Some (fst r)) \<and> snd r = None"
  then obtain k where "resolvesIn b k t = Some (fst r)" and "snd r = None" by blast
  then have "getUnderlyingType b t = Some (fst r, snd r)"
    using getUnderlyingType_resolves by simp
  then show "getUnderlyingType b t = Some r" by simp
qed

theorem getUnderlyingType_returns_iff_chain_ends_witness:
  "getUnderlyingType ex_btf 2 = Some (1, None) \<and> resolvesIn ex_btf 1 2 = Some 1"
proof -
  have r: "resolvesIn ex_btf 1 2 = Some 1"
    by (simp add: ex_btf_def)
  then have "\<exists>k. resolvesIn ex_btf k 2 = Some (fst (1, None :: error option))"
    unfolding fst_conv by (rule exI)
  then have "getUnderlyingType ex_btf 2 = Some (1, None)"
    using getUnderlyingType_returns_iff_chain_ends [of ex_btf 2 "(1, None)"] by simp
  with r show ?thesis by simp
qed

text \<open>
  C4 as stated fails: the resolution of a typedef that is an alias of itself does not
  stop with an error, it does not return at all.
\<close>

theorem getUnderlyingType_cyclic_counterexample:
  "getUnderlyingType ex_cyclic 0 = None"
proof (cases "getUnderlyingType ex_cyclic 0")
  case None
  then show ?thesis .
next
  case (Some r)
  then obtain k where "resolvesIn ex_cyclic k 0 = Some (fst r)"
    using getUnderlyingType_returns by blast
  then show ?thesis by (simp add: resolvesIn_cyclic)
qed

section \<open>Width inference: when it returns\<close>

lemma resolvesIn_not_typedef:
  "resolvesIn b k t = Some u \<Longrightarrow> b u \<noteq> btf_Typedef n t'"
  by (induction k arbitrary: t) (auto split: btf_Type.splits)

lemma getColumnSize_concrete:
  "\<forall>n t'. b u \<noteq> btf_Typedef n t' \<Longrightarrow> \<exists>w. getColumnSize b u = Some w"
  by (subst getColumnSize.simps) (simp split: btf_Type.splits)

lemma getColumnSize_returns:
  assumes "resolvesIn b k t = Some u"
  shows "\<exists>w. getColumnSize b t = Some w"
proof (cases "\<exists>n t'. b t = btf_Typedef n t'")
  case False
  then show ?thesis by (intro getColumnSize_concrete) simp
next
  case True
  then obtain n t' where td: "b t = btf_Typedef n t'" by blast
  with assms obtain k' where "resolvesIn b k' t' = Some u"
    by (cases k) auto
  then have "getUnderlyingType b t' = Some (u, None)"
    by (rule getUnderlyingType_resolves)
  moreover have "\<exists>w. getColumnSize b u = Some w"
    using resolvesIn_not_typedef[OF assms] by (intro getColumnSize_concrete) simp
  ultimately show ?thesis
    using td by (subst getColumnSize.simps) simp
qed

section \<open>Trace-map locator: what it selects\<close>

lemma getGadgetIdentByPrefix_loop_filter:
  "getGadgetIdentByPrefix_loop b (filter (\<lambda>t. isVar (b t)) ts) p = getGadgetIdentByPrefix_loop b ts p"
  by (induction ts) (auto simp: isVar_def split: btf_Type.splits)

lemma getGadgetIdentByPrefix_loop_suffix:
  "getGadgetIdentByPrefix_loop b ts p \<noteq> [] \<Longrightarrow>
   \<exists>t\<in>set ts. \<exists>ty. b t = btf_Var (p @ getGadgetIdentByPrefix_loop b ts p) ty"
proof (induction ts)
  case Nil
  then show ?case by simp
next
  case (Cons t ts)
  show ?case
  proof (cases "b t")
    case (btf_Var n ty)
    show ?thesis
    proof (cases "HasPrefix n p")
      case True
      then have "p @ drop (length p) n = n"
        by (metis HasPrefix_def append_take_drop_id)
      with True btf_Var show ?thesis
        by (simp add: TrimPrefix_def)
    next
      case False
      with btf_Var Cons show ?thesis by simp
    qed
  qed (use Cons in auto)
qed

text \<open>
  C10. The locator looks at the variable entries of the type table only: its result is
  the same on the table with every other entry removed, and a name it returns that is
  not empty is what follows the prefix in the name of a variable entry of the table.
\<close>

theorem getGadgetIdentByPrefix_variables_only:
  "getGadgetIdentByPrefix spec p =
     getGadgetIdentByPrefix (spec\<lparr>Types := filter (\<lambda>t. isVar (btf spec t)) (Types spec)\<rparr>) p
   \<and> (getGadgetIdentByPrefix spec p \<noteq> [] \<longrightarrow>
        (\<exists>t\<in>set (Types spec). \<exists>ty. btf spec t = btf_Var (p @ getGadgetIdentByPrefix spec p) ty))"
  using getGadgetIdentByPrefix_loop_filter [of "btf spec" "Types spec" p]
    getGadgetIdentByPrefix_loop_suffix [of "btf spec" "Types spec" p]
  by (simp add: getGadgetIdentByPrefix_def)

lemma ex_spec_ident: "getGadgetIdentByPrefix ex_spec traceMapPrefix = ''events''"
  by (simp add: getGadgetIdentByPrefix_def ex_spec_def ex_btf_def traceMapPrefix_def
      HasPrefix_def TrimPrefix_def)

theorem getGadgetIdentByPrefix_variables_only_witness:
  "getGadgetIdentByPrefix ex_spec traceMapPrefix \<noteq> []
   \<and> btf ex_spec 10 = btf_Struct ''gadget_trace_map_fake'' []
   \<and> (\<exists>t\<in>set (Types ex_spec). \<exists>ty.
        btf ex_spec t = btf_Var (traceMapPrefix @ getGadgetIdentByPrefix ex_spec traceMapPrefix) ty)"
proof -
  have "getGadgetIdentByPrefix ex_spec traceMapPrefix \<noteq> []"
    by (simp add: ex_spec_ident)
  moreover have "btf ex_spec 10 = btf_Struct ''gadget_trace_map_fake'' []"
    by (simp add: ex_spec_def ex_btf_def)
  ultimately show ?thesis
    using getGadgetIdentByPrefix_variables_only [of ex_spec traceMapPrefix] by blast
qed

lemma getGadgetIdentByPrefix_loop_none:
  "(\<forall>t\<in>set ts. \<forall>n ty. b t = btf_Var n ty \<longrightarrow> \<not> HasPrefix n p) \<Longrightarrow>
   getGadgetIdentByPrefix_loop b ts p = []"
  by (induction ts) (auto split: btf_Type.splits)

section \<open>Validator: the errors it collects\<close>

lemma multierror_Errors_Append [simp]:
  "multierror_Errors (multierror_Append r e) = multierror_Errors r @ multierror_flatten e"
  by (simp add: multierror_Append_def)

lemma multierror_flatten_Errors: "multierror_flatten e = multierror_Errors (Some e)"
  by (cases e) simp_all

lemma multierror_Append_Multi: "multierror_Append r e = Some (MultiError (multierror_Errors (multierror_Append r e)))"
  by (simp add: multierror_Append_def)

lemma validateTraceMap_flat: "validateTraceMap b tm = Some e \<Longrightarrow> multierror_flatten e = [e]"
  by (auto simp: validateTraceMap_def split: if_splits option.splits btf_Type.splits)

lemma validateTraceMap_None:
  "validateTraceMap b tm = None \<Longrightarrow> \<exists>v n ms. MapSpecValue tm = Some v \<and> b v = btf_Struct n ms"
  by (auto simp: validateTraceMap_def split: if_splits option.splits btf_Type.splits)

lemma validateTraceMap_value:
  assumes "MapSpecType tm = RingBuf \<or> MapSpecType tm = PerfEventArray"
  shows "validateTraceMap b tm =
     (case MapSpecValue tm of
        None \<Rightarrow> Some (MapNoValueBTF (MapSpecName tm))
      | Some v \<Rightarrow> if isStruct (b v) then None else Some (MapValueNotStruct (MapSpecName tm)))"
  using assms
  by (auto simp: validateTraceMap_def isStruct_def split: option.splits btf_Type.splits)

lemma validateTraceMap_value_error:
  assumes "validateTraceMap b tm = Some e" "e = MapNoValueBTF n \<or> e = MapValueNotStruct n"
  shows "MapSpecName tm = n \<and> \<not> (\<exists>v. MapSpecValue tm = Some v \<and> isStruct (b v))"
  using assms
  by (auto simp: validateTraceMap_def isStruct_def split: if_splits option.splits btf_Type.splits)

lemma validateTracers_loop_errors:
  "multierror_Errors (fst (validateTracers_loop w ts r)) =
     multierror_Errors r @ concat (map (tracerFindings w) ts)"
proof (induction ts arbitrary: r)
  case Nil
  then show ?case by simp
next
  case (Cons nt ts)
  obtain name tracer where nt: "nt = (name, tracer)" by (cases nt)
  show ?case
  proof (cases "map_of (Maps (snd w)) (MapName tracer)")
    case None
    then show ?thesis
      unfolding nt
      by (cases "lookup (Structs (fst w)) (StructName tracer)")
         (simp_all add: Cons.IH tracerFindings_def Let_def)
  next
    case (Some ebpfm)
    show ?thesis
    proof (cases "validateTraceMap (btf (snd w)) ebpfm")
      case None
      with Some show ?thesis
        unfolding nt
        by (cases "lookup (Structs (fst w)) (StructName tracer)")
           (simp_all add: Cons.IH tracerFindings_def Let_def)
    next
      case (Some err)
      with \<open>map_of (Maps (snd w)) (MapName tracer) = Some ebpfm\<close> validateTraceMap_flat[OF Some]
      show ?thesis
        unfolding nt
        by (cases "lookup (Structs (fst w)) (StructName tracer)")
           (simp_all add: Cons.IH tracerFindings_def Let_def)
    qed
  qed
qed

lemma validateTracers_loop_world: "snd (validateTracers_loop w ts r) = w"
proof (induction ts arbitrary: r)
  case Nil
  then show ?case by simp
next
  case (Cons nt ts)
  obtain name tracer where nt: "nt = (name, tracer)" by (cases nt)
  show ?case
    unfolding nt by (simp add: Cons.IH Let_def split: option.splits)
qed

lemma keys_fold_update:
  "fst ` set (fold (\<lambda>x. AList.update (key x) x) xs al) = key ` set xs \<union> fst ` set al"
  by (induction xs arbitrary: al) (auto simp: dom_update)

lemma map_of_fold_update_None:
  "map_of (fold (\<lambda>x. AList.update (key x) x) xs []) k = None \<longleftrightarrow> k \<notin> key ` set xs"
  using keys_fold_update[of key xs "[]"] by (simp add: map_of_eq_None_iff)

lemma validateStructs_fields_errors:
  "multierror_Errors (validateStructs_fields bsf name fns r) =
     multierror_Errors r @ map (\<lambda>fieldName. FieldNotFound fieldName name)
        (filter (\<lambda>fieldName. map_of bsf fieldName = None) fns)"
  by (induction fns arbitrary: r) (auto split: option.splits)

lemma validateStructs_loop_errors:
  "multierror_Errors (fst (validateStructs_loop w ss r)) =
     multierror_Errors r @ concat (map (structFindings w) ss)"
proof (induction ss arbitrary: r)
  case Nil
  then show ?case by simp
next
  case (Cons ns ss)
  obtain name mapStruct where ns: "ns = (name, mapStruct)" by (cases ns)
  show ?case
    unfolding ns
    by (simp add: Cons.IH structFindings_def Let_def validateStructs_fields_errors
        map_of_fold_update_None split: sum.splits)
qed

lemma validateStructs_loop_world: "snd (validateStructs_loop w ss r) = w"
proof (induction ss arbitrary: r)
  case Nil
  then show ?case by simp
next
  case (Cons ns ss)
  obtain name mapStruct where ns: "ns = (name, mapStruct)" by (cases ns)
  show ?case
    unfolding ns by (simp add: Cons.IH Let_def split: sum.splits)
qed

lemma validateTracers_world: "snd (validateTracers w) = w"
  by (simp add: validateTracers_def validateTracers_loop_world)

lemma validateStructs_world: "snd (validateStructs w) = w"
  by (simp add: validateStructs_def validateStructs_loop_world)

lemma validateTracers_errors:
  "multierror_Errors (fst (validateTracers w)) =
     (if 1 < length (entries (Tracers (fst w))) then [OnlyOneTracerAllowed] else [])
     @ concat (map (tracerFindings w) (entries (Tracers (fst w))))"
  by (simp add: validateTracers_def validateTracers_loop_errors)

lemma validateStructs_errors:
  "multierror_Errors (fst (validateStructs w)) = concat (map (structFindings w) (entries (Structs (fst w))))"
  by (simp add: validateStructs_def validateStructs_loop_errors)

lemma Validate_unfold:
  "Validate w =
     (let result = (if Name (fst w) = [] then multierror_Append None GadgetNameRequired else None);
          result1 = (case fst (validateTracers w) of Some e \<Rightarrow> multierror_Append result e | None \<Rightarrow> result);
          result2 = (case fst (validateStructs w) of Some e \<Rightarrow> multierror_Append result1 e | None \<Rightarrow> result1)
      in (result2, w))"
proof -
  have t: "validateTracers w = (fst (validateTracers w), w)"
    using validateTracers_world[of w] by (metis prod.collapse)
  have s: "validateStructs w = (fst (validateStructs w), w)"
    using validateStructs_world[of w] by (metis prod.collapse)
  show ?thesis
    unfolding Validate_def by (subst t, simp only: Let_def prod.case, subst s, simp only: Let_def prod.case)
qed

text \<open>
  C8. \<open>Validate\<close> is read-only: whatever error it returns, the document and the
  compiled object it was given are the document and the compiled object it leaves.
\<close>

theorem Validate_readonly: "snd (Validate w) = w"
  by (simp add: Validate_unfold Let_def)

lemma Validate_errors:
  "multierror_Errors (fst (Validate w)) =
     (if Name (fst w) = [] then [GadgetNameRequired] else [])
     @ multierror_Errors (fst (validateTracers w))
     @ multierror_Errors (fst (validateStructs w))"
  by (simp add: Validate_unfold Let_def multierror_flatten_Errors split: option.splits)

lemma Validate_single_error:
  "fst (Validate w) = None \<or> fst (Validate w) = Some (MultiError (findings w))"
proof -
  define result where "result = (if Name (fst w) = [] then multierror_Append None GadgetNameRequired else None)"
  define result1 where "result1 = (case fst (validateTracers w) of Some e \<Rightarrow> multierror_Append result e | None \<Rightarrow> result)"
  define result2 where "result2 = (case fst (validateStructs w) of Some e \<Rightarrow> multierror_Append result1 e | None \<Rightarrow> result1)"
  have r: "result = None \<or> result = Some (MultiError (multierror_Errors result))"
    unfolding result_def using multierror_Append_Multi by auto
  have r1: "result1 = None \<or> result1 = Some (MultiError (multierror_Errors result1))"
    unfolding result1_def using r multierror_Append_Multi by (auto split: option.splits)
  have r2: "result2 = None \<or> result2 = Some (MultiError (multierror_Errors result2))"
    unfolding result2_def using r1 multierror_Append_Multi by (auto split: option.splits)
  have "fst (Validate w) = result2"
    unfolding Validate_unfold Let_def result2_def result1_def result_def by simp
  with r2 show ?thesis by (simp add: findings_def)
qed

lemma findings_eq:
  "findings w =
     (if Name (fst w) = [] then [GadgetNameRequired] else [])
     @ (if 1 < length (entries (Tracers (fst w))) then [OnlyOneTracerAllowed] else [])
     @ concat (map (tracerFindings w) (entries (Tracers (fst w))))
     @ concat (map (structFindings w) (entries (Structs (fst w))))"
  by (simp add: findings_def Validate_errors validateTracers_errors validateStructs_errors)

lemma tracerFindings_in_findings:
  "nt \<in> set (entries (Tracers (fst w))) \<Longrightarrow> e \<in> set (tracerFindings w nt) \<Longrightarrow> e \<in> set (findings w)"
  by (auto simp: findings_eq)

lemma structFindings_in_findings:
  "ns \<in> set (entries (Structs (fst w))) \<Longrightarrow> e \<in> set (structFindings w ns) \<Longrightarrow> e \<in> set (findings w)"
  by (auto simp: findings_eq)

lemma set_tracerFindings:
  "set (tracerFindings w (name, tracer)) =
     (if MapName tracer = [] then {TracerMissingMapName name} else {})
     \<union> (if StructName tracer = [] then {TracerMissingStructName name} else {})
     \<union> (if lookup (Structs (fst w)) (StructName tracer) = None
         then {TracerUnknownStruct name (StructName tracer)} else {})
     \<union> (case map_of (Maps (snd w)) (MapName tracer) of
           None \<Rightarrow> {MapNotFound (MapName tracer)}
         | Some ebpfm \<Rightarrow> set_option (validateTraceMap (btf (snd w)) ebpfm))"
  by (auto simp: tracerFindings_def split: option.splits)

lemma set_structFindings:
  "set (structFindings w (name, mapStruct)) =
     (case TypeByName (snd w) name of
        Inl err \<Rightarrow> {StructLookupFailed name err}
      | Inr members \<Rightarrow>
          (\<lambda>f. FieldNotFound (FieldName f) name) ` {f \<in> set (Fields mapStruct). FieldName f \<notin> MemberName ` set members})"
proof (cases "TypeByName (snd w) name")
  case (Inl err)
  then show ?thesis by (simp add: structFindings_def)
next
  case (Inr members)
  have "set (map fst (fold (\<lambda>f. AList.update (FieldName f) f) (Fields mapStruct) [])) = FieldName ` set (Fields mapStruct)"
    using keys_fold_update[of FieldName "Fields mapStruct" "[]"] by simp
  with Inr show ?thesis
    by (auto simp: structFindings_def)
qed

lemma value_error_origin:
  assumes "e \<in> set (findings w)" "e = MapNoValueBTF n \<or> e = MapValueNotStruct n"
  shows "\<exists>(name, tracer) \<in> set (entries (Tracers (fst w))). \<exists>tm.
           map_of (Maps (snd w)) (MapName tracer) = Some tm \<and> validateTraceMap (btf (snd w)) tm = Some e"
proof -
  from assms(1) consider
      (a) "e = GadgetNameRequired" | (b) "e = OnlyOneTracerAllowed"
    | (c) nt where "nt \<in> set (entries (Tracers (fst w)))" "e \<in> set (tracerFindings w nt)"
    | (d) ns where "ns \<in> set (entries (Structs (fst w)))" "e \<in> set (structFindings w ns)"
    by (auto simp: findings_eq split: if_splits)
  then show ?thesis
  proof cases
    case a with assms(2) show ?thesis by auto
  next
    case b with assms(2) show ?thesis by auto
  next
    case c
    obtain name tracer where nt: "nt = (name, tracer)" by (cases nt)
    from c(2) assms(2) have "\<exists>tm. map_of (Maps (snd w)) (MapName tracer) = Some tm
        \<and> validateTraceMap (btf (snd w)) tm = Some e"
      unfolding nt set_tracerFindings by (auto split: if_splits option.splits)
    with c(1) nt show ?thesis by auto
  next
    case d
    obtain name mapStruct where ns: "ns = (name, mapStruct)" by (cases ns)
    from d(2) assms(2) have False
      unfolding ns set_structFindings by (auto split: sum.splits)
    then show ?thesis ..
  qed
qed

lemma ex_bad_Validate:
  "fst (Validate (ex_bad, ex_spec)) =
     Some (MultiError [GadgetNameRequired, OnlyOneTracerAllowed, FieldNotFound ''missing_field'' ''event_t''])"
  by (simp add: validate_defs ex_defs)

lemma ex_alias_Validate:
  "fst (Validate (ex_alias_doc, ex_spec)) = Some (MultiError [MapValueNotStruct ''aliased''])"
  by (simp add: validate_defs ex_defs)

lemma validateTraceMap_kind:
  "MapSpecType tm \<noteq> RingBuf \<Longrightarrow> MapSpecType tm \<noteq> PerfEventArray \<Longrightarrow>
   validateTraceMap b tm = Some (MapWrongType (MapSpecName tm) (MapSpecType tm))"
  by (simp add: validateTraceMap_def)

lemma map_findings:
  assumes "(name, tracer) \<in> set (entries (Tracers (fst w)))"
    and "map_of (Maps (snd w)) (MapName tracer) = Some ebpfm"
  shows "MapSpecType ebpfm \<noteq> RingBuf \<and> MapSpecType ebpfm \<noteq> PerfEventArray \<Longrightarrow>
           MapWrongType (MapSpecName ebpfm) (MapSpecType ebpfm) \<in> set (findings w)"
    and "MapSpecType ebpfm = RingBuf \<or> MapSpecType ebpfm = PerfEventArray \<Longrightarrow>
           MapSpecValue ebpfm = None \<Longrightarrow> MapNoValueBTF (MapSpecName ebpfm) \<in> set (findings w)"
    and "MapSpecType ebpfm = RingBuf \<or> MapSpecType ebpfm = PerfEventArray \<Longrightarrow>
           MapSpecValue ebpfm = Some v \<Longrightarrow> \<not> isStruct (btf (snd w) v) \<Longrightarrow>
           MapValueNotStruct (MapSpecName ebpfm) \<in> set (findings w)"
proof -
  note sub = tracerFindings_in_findings[OF assms(1)]
  show "MapWrongType (MapSpecName ebpfm) (MapSpecType ebpfm) \<in> set (findings w)"
    if "MapSpecType ebpfm \<noteq> RingBuf \<and> MapSpecType ebpfm \<noteq> PerfEventArray"
    using that assms(2) validateTraceMap_kind[of ebpfm "btf (snd w)"]
    by (intro sub) (simp add: set_tracerFindings)
  show "MapNoValueBTF (MapSpecName ebpfm) \<in> set (findings w)"
    if k: "MapSpecType ebpfm = RingBuf \<or> MapSpecType ebpfm = PerfEventArray"
      and "MapSpecValue ebpfm = None"
    using that(2) assms(2) validateTraceMap_value[OF k, of "btf (snd w)"]
    by (intro sub) (simp add: set_tracerFindings)
  show "MapValueNotStruct (MapSpecName ebpfm) \<in> set (findings w)"
    if k: "MapSpecType ebpfm = RingBuf \<or> MapSpecType ebpfm = PerfEventArray"
      and "MapSpecValue ebpfm = Some v" "\<not> isStruct (btf (snd w) v)"
    using that(2,3) assms(2) validateTraceMap_value[OF k, of "btf (snd w)"]
    by (intro sub) (simp add: set_tracerFindings)
qed

lemma ex_broken_Validate:
  "fst (Validate (ex_broken_doc, ex_broken_spec)) =
     Some (MultiError [MapWrongType ''broken'' (OtherMapType ''Hash'')])"
  by (simp add: validate_defs ex_defs)

text \<open>
  C3, as amended. \<open>Validate\<close> aggregates: the error it returns is one multierror whose
  list holds the finding of every check that fails, with one exception. The checks are
  the empty name, more than one tracer, for each tracer its empty map name, its empty
  structure name, its unknown structure and its unknown map, and for each declared
  structure the failed lookup in the type table or, when the structure is there, every
  declared field that is no member of it. The exception is the map of a tracer: of its
  three checks (the kind, a value type, a value type that is a structure) the first
  that fails is reported, so the value type is only looked at when the kind is a ring
  buffer or a perf event array.
\<close>

theorem Validate_reports_every_violation:
  "(fst (Validate w) = None \<or> fst (Validate w) = Some (MultiError (findings w)))
   \<and> (Name (fst w) = [] \<longrightarrow> GadgetNameRequired \<in> set (findings w))
   \<and> (1 < length (entries (Tracers (fst w))) \<longrightarrow> OnlyOneTracerAllowed \<in> set (findings w))
   \<and> (\<forall>(name, tracer) \<in> set (entries (Tracers (fst w))).
         (MapName tracer = [] \<longrightarrow> TracerMissingMapName name \<in> set (findings w))
       \<and> (StructName tracer = [] \<longrightarrow> TracerMissingStructName name \<in> set (findings w))
       \<and> (lookup (Structs (fst w)) (StructName tracer) = None \<longrightarrow>
            TracerUnknownStruct name (StructName tracer) \<in> set (findings w))
       \<and> (map_of (Maps (snd w)) (MapName tracer) = None \<longrightarrow>
            MapNotFound (MapName tracer) \<in> set (findings w))
       \<and> (\<forall>ebpfm. map_of (Maps (snd w)) (MapName tracer) = Some ebpfm \<longrightarrow>
            (MapSpecType ebpfm \<noteq> RingBuf \<and> MapSpecType ebpfm \<noteq> PerfEventArray \<longrightarrow>
               MapWrongType (MapSpecName ebpfm) (MapSpecType ebpfm) \<in> set (findings w))
          \<and> (MapSpecType ebpfm = RingBuf \<or> MapSpecType ebpfm = PerfEventArray \<longrightarrow>
               (MapSpecValue ebpfm = None \<longrightarrow> MapNoValueBTF (MapSpecName ebpfm) \<in> set (findings w))
             \<and> (\<forall>v. MapSpecValue ebpfm = Some v \<longrightarrow> \<not> isStruct (btf (snd w) v) \<longrightarrow>
                  MapValueNotStruct (MapSpecName ebpfm) \<in> set (findings w)))))
   \<and> (\<forall>(name, mapStruct) \<in> set (entries (Structs (fst w))).
         (\<forall>err. TypeByName (snd w) name = Inl err \<longrightarrow> StructLookupFailed name err \<in> set (findings w))
       \<and> (\<forall>members. TypeByName (snd w) name = Inr members \<longrightarrow>
            (\<forall>f \<in> set (Fields mapStruct). FieldName f \<notin> MemberName ` set members \<longrightarrow>
               FieldNotFound (FieldName f) name \<in> set (findings w))))"
proof (intro conjI)
  show "fst (Validate w) = None \<or> fst (Validate w) = Some (MultiError (findings w))"
    by (rule Validate_single_error)
  show "Name (fst w) = [] \<longrightarrow> GadgetNameRequired \<in> set (findings w)"
    by (simp add: findings_eq)
  show "1 < length (entries (Tracers (fst w))) \<longrightarrow> OnlyOneTracerAllowed \<in> set (findings w)"
    by (simp add: findings_eq)
  show "\<forall>(name, tracer) \<in> set (entries (Tracers (fst w))).
         (MapName tracer = [] \<longrightarrow> TracerMissingMapName name \<in> set (findings w))
       \<and> (StructName tracer = [] \<longrightarrow> TracerMissingStructName name \<in> set (findings w))
       \<and> (lookup (Structs (fst w)) (StructName tracer) = None \<longrightarrow>
            TracerUnknownStruct name (StructName tracer) \<in> set (findings w))
       \<and> (map_of (Maps (snd w)) (MapName tracer) = None \<longrightarrow>
            MapNotFound (MapName tracer) \<in> set (findings w))
       \<and> (\<forall>ebpfm. map_of (Maps (snd w)) (MapName tracer) = Some ebpfm \<longrightarrow>
            (MapSpecType ebpfm \<noteq> RingBuf \<and> MapSpecType ebpfm \<noteq> PerfEventArray \<longrightarrow>
               MapWrongType (MapSpecName ebpfm) (MapSpecType ebpfm) \<in> set (findings w))
          \<and> (MapSpecType ebpfm = RingBuf \<or> MapSpecType ebpfm = PerfEventArray \<longrightarrow>
               (MapSpecValue ebpfm = None \<longrightarrow> MapNoValueBTF (MapSpecName ebpfm) \<in> set (findings w))
             \<and> (\<forall>v. MapSpecValue ebpfm = Some v \<longrightarrow> \<not> isStruct (btf (snd w) v) \<longrightarrow>
                  MapValueNotStruct (MapSpecName ebpfm) \<in> set (findings w))))"
  proof (intro ballI, clarify, intro conjI allI impI)
    fix name tracer
    assume nt: "(name, tracer) \<in> set (entries (Tracers (fst w)))"
    note sub = tracerFindings_in_findings[OF nt]
    show "TracerMissingMapName name \<in> set (findings w)" if "MapName tracer = []"
      using that by (intro sub) (simp add: set_tracerFindings)
    show "TracerMissingStructName name \<in> set (findings w)" if "StructName tracer = []"
      using that by (intro sub) (simp add: set_tracerFindings)
    show "TracerUnknownStruct name (StructName tracer) \<in> set (findings w)"
      if "lookup (Structs (fst w)) (StructName tracer) = None"
      using that by (intro sub) (simp add: set_tracerFindings)
    show "MapNotFound (MapName tracer) \<in> set (findings w)"
      if "map_of (Maps (snd w)) (MapName tracer) = None"
      using that by (intro sub) (simp add: set_tracerFindings)
    show "MapWrongType (MapSpecName ebpfm) (MapSpecType ebpfm) \<in> set (findings w)"
      if "map_of (Maps (snd w)) (MapName tracer) = Some ebpfm"
        and "MapSpecType ebpfm \<noteq> RingBuf \<and> MapSpecType ebpfm \<noteq> PerfEventArray" for ebpfm
      using map_findings(1)[OF nt that(1) that(2)] .
    show "MapNoValueBTF (MapSpecName ebpfm) \<in> set (findings w)"
      if "map_of (Maps (snd w)) (MapName tracer) = Some ebpfm"
        and "MapSpecType ebpfm = RingBuf \<or> MapSpecType ebpfm = PerfEventArray"
        and "MapSpecValue ebpfm = None" for ebpfm
      using map_findings(2)[OF nt that(1) that(2) that(3)] .
    show "MapValueNotStruct (MapSpecName ebpfm) \<in> set (findings w)"
      if "map_of (Maps (snd w)) (MapName tracer) = Some ebpfm"
        and "MapSpecType ebpfm = RingBuf \<or> MapSpecType ebpfm = PerfEventArray"
        and "MapSpecValue ebpfm = Some v" and "\<not> isStruct (btf (snd w) v)" for ebpfm v
      using map_findings(3)[OF nt that(1) that(2) that(3) that(4)] .
  qed
  show "\<forall>(name, mapStruct) \<in> set (entries (Structs (fst w))).
         (\<forall>err. TypeByName (snd w) name = Inl err \<longrightarrow> StructLookupFailed name err \<in> set (findings w))
       \<and> (\<forall>members. TypeByName (snd w) name = Inr members \<longrightarrow>
            (\<forall>f \<in> set (Fields mapStruct). FieldName f \<notin> MemberName ` set members \<longrightarrow>
               FieldNotFound (FieldName f) name \<in> set (findings w)))"
  proof (intro ballI, clarify, intro conjI allI impI ballI)
    fix name mapStruct
    assume ns: "(name, mapStruct) \<in> set (entries (Structs (fst w)))"
    note sub = structFindings_in_findings[OF ns]
    show "StructLookupFailed name err \<in> set (findings w)" if "TypeByName (snd w) name = Inl err" for err
      using that by (intro sub) (simp add: set_structFindings)
    show "FieldNotFound (FieldName f) name \<in> set (findings w)"
      if "TypeByName (snd w) name = Inr members" "f \<in> set (Fields mapStruct)"
        "FieldName f \<notin> MemberName ` set members" for members f
      using that by (intro sub) (auto simp: set_structFindings)
  qed
qed

text \<open>
  The scenario of the specification: no name, two tracers and the field
  \<open>missing_field\<close>, which \<open>event_t\<close> does not have; and the wrong kind of the map
  \<open>broken\<close>.
\<close>

theorem Validate_reports_every_violation_witness:
  "Name (fst (ex_bad, ex_spec)) = []
   \<and> 1 < length (entries (Tracers (fst (ex_bad, ex_spec))))
   \<and> TypeByName (snd (ex_bad, ex_spec)) ''event_t'' =
       Inr [\<lparr>MemberName = ''pid'', MemberType = 2\<rparr>, \<lparr>MemberName = ''comm'', MemberType = 4\<rparr>,
            \<lparr>MemberName = ''timestamp'', MemberType = 6\<rparr>, \<lparr>MemberName = ''mntns_id'', MemberType = 8\<rparr>]
   \<and> GadgetNameRequired \<in> set (findings (ex_bad, ex_spec))
   \<and> OnlyOneTracerAllowed \<in> set (findings (ex_bad, ex_spec))
   \<and> FieldNotFound ''missing_field'' ''event_t'' \<in> set (findings (ex_bad, ex_spec))
   \<and> map_of (Maps (snd (ex_broken_doc, ex_broken_spec))) ''broken'' = Some ex_broken
   \<and> MapSpecType ex_broken = OtherMapType ''Hash''
   \<and> MapWrongType ''broken'' (OtherMapType ''Hash'') \<in> set (findings (ex_broken_doc, ex_broken_spec))"
proof -
  let ?w = "(ex_bad, ex_spec)"
  let ?s = "\<lparr>Fields = [newField ''pid'' 10, newField ''missing_field'' 16 :: unit Field]\<rparr>"
  let ?ms = "[\<lparr>MemberName = ''pid'', MemberType = 2\<rparr>, \<lparr>MemberName = ''comm'', MemberType = 4\<rparr>,
            \<lparr>MemberName = ''timestamp'', MemberType = 6\<rparr>, \<lparr>MemberName = ''mntns_id'', MemberType = 8\<rparr>]"
  note all = Validate_reports_every_violation[of ?w]
  have n: "Name (fst ?w) = []" by (simp add: ex_bad_def)
  have l: "1 < length (entries (Tracers (fst ?w)))" by (simp add: ex_bad_def entries_def)
  have s: "(''event_t'', ?s) \<in> set (entries (Structs (fst ?w)))" by (simp add: ex_bad_def entries_def)
  have t: "TypeByName (snd ?w) ''event_t'' = Inr ?ms"
    by (simp add: TypeByName_def List.map_filter_def ex_spec_def ex_btf_def)
  have f: "newField ''missing_field'' 16 \<in> set (Fields ?s)" by simp
  have m: "FieldName (newField ''missing_field'' 16 :: unit Field) \<notin> MemberName ` set ?ms"
    by (simp add: newField_def)
  from all n have 1: "GadgetNameRequired \<in> set (findings ?w)" by blast
  from all l have 2: "OnlyOneTracerAllowed \<in> set (findings ?w)" by blast
  from all have "\<forall>(name, mapStruct) \<in> set (entries (Structs (fst ?w))).
         (\<forall>err. TypeByName (snd ?w) name = Inl err \<longrightarrow> StructLookupFailed name err \<in> set (findings ?w))
       \<and> (\<forall>members. TypeByName (snd ?w) name = Inr members \<longrightarrow>
            (\<forall>f \<in> set (Fields mapStruct). FieldName f \<notin> MemberName ` set members \<longrightarrow>
               FieldNotFound (FieldName f) name \<in> set (findings ?w)))" by blast
  from bspec[OF this s] t f m
  have "FieldNotFound (FieldName (newField ''missing_field'' 16 :: unit Field)) ''event_t'' \<in> set (findings ?w)"
    by blast
  then have 3: "FieldNotFound ''missing_field'' ''event_t'' \<in> set (findings ?w)"
    by (simp add: newField_def)
  let ?v = "(ex_broken_doc, ex_broken_spec)"
  let ?t = "\<lparr>MapName = ''broken'', StructName = ''event_t''\<rparr>"
  have bt: "(''broken'', ?t) \<in> set (entries (Tracers (fst ?v)))"
    by (simp add: ex_broken_doc_def entries_def)
  have bm: "map_of (Maps (snd ?v)) (MapName ?t) = Some ex_broken"
    by (simp add: ex_broken_spec_def)
  have bk: "MapSpecType ex_broken \<noteq> RingBuf \<and> MapSpecType ex_broken \<noteq> PerfEventArray"
    by (simp add: ex_broken_def)
  from Validate_reports_every_violation[of ?v]
  have "\<forall>(name, tracer) \<in> set (entries (Tracers (fst ?v))).
       (\<forall>ebpfm. map_of (Maps (snd ?v)) (MapName tracer) = Some ebpfm \<longrightarrow>
            (MapSpecType ebpfm \<noteq> RingBuf \<and> MapSpecType ebpfm \<noteq> PerfEventArray \<longrightarrow>
               MapWrongType (MapSpecName ebpfm) (MapSpecType ebpfm) \<in> set (findings ?v)))"
    by blast
  from bspec[OF this bt] bm bk
  have "MapWrongType (MapSpecName ex_broken) (MapSpecType ex_broken) \<in> set (findings ?v)"
    by blast
  then have 4: "MapWrongType ''broken'' (OtherMapType ''Hash'') \<in> set (findings ?v)"
    by (simp add: ex_broken_def)
  have 5: "map_of (Maps (snd ?v)) ''broken'' = Some ex_broken" "MapSpecType ex_broken = OtherMapType ''Hash''"
    using bm by (simp_all add: ex_broken_def)
  from n l t 1 2 3 4 5 show ?thesis by blast
qed

text \<open>
  C3 as stated fails: the map \<open>broken\<close> is of the wrong kind and has no value type,
  which are two violations, and the error of \<open>Validate\<close> holds the first only.
\<close>

theorem Validate_first_map_check_only_counterexample:
  "(''broken'', \<lparr>MapName = ''broken'', StructName = ''event_t''\<rparr>) \<in> set (entries (Tracers ex_broken_doc))
   \<and> map_of (Maps ex_broken_spec) ''broken'' = Some ex_broken
   \<and> MapSpecType ex_broken \<noteq> RingBuf
   \<and> MapSpecType ex_broken \<noteq> PerfEventArray
   \<and> MapSpecValue ex_broken = None
   \<and> fst (Validate (ex_broken_doc, ex_broken_spec)) =
       Some (MultiError [MapWrongType ''broken'' (OtherMapType ''Hash'')])
   \<and> MapNoValueBTF ''broken'' \<notin> set (findings (ex_broken_doc, ex_broken_spec))"
  using ex_broken_Validate
  by (simp add: findings_def ex_broken_doc_def ex_broken_spec_def ex_broken_def entries_def)

text \<open>
  C5, as amended. For a tracer whose map is a ring buffer or a perf event array,
  \<open>Validate\<close> reports that the map has no value type when it has none and that the
  value is no structure when the value type is not itself a structure; typedefs are not
  followed. A value type that is itself a structure passes the check of the map, and
  an error about the value of a map named \<open>n\<close> is only reported when some tracer
  uses a map of that name whose value type is absent or not itself a structure.
\<close>

theorem Validate_value_must_be_struct:
  assumes "(name, tracer) \<in> set (entries (Tracers (fst w)))"
    and "map_of (Maps (snd w)) (MapName tracer) = Some tm"
    and "MapSpecType tm = RingBuf \<or> MapSpecType tm = PerfEventArray"
  shows "(MapSpecValue tm = None \<longrightarrow> MapNoValueBTF (MapSpecName tm) \<in> set (findings w))
       \<and> (\<forall>v. MapSpecValue tm = Some v \<longrightarrow> \<not> isStruct (btf (snd w) v) \<longrightarrow>
             MapValueNotStruct (MapSpecName tm) \<in> set (findings w))
       \<and> (\<forall>v. MapSpecValue tm = Some v \<longrightarrow> isStruct (btf (snd w) v) \<longrightarrow>
             validateTraceMap (btf (snd w)) tm = None)
       \<and> (\<forall>n. MapNoValueBTF n \<in> set (findings w) \<or> MapValueNotStruct n \<in> set (findings w) \<longrightarrow>
             (\<exists>(name', tracer') \<in> set (entries (Tracers (fst w))). \<exists>tm'.
                map_of (Maps (snd w)) (MapName tracer') = Some tm' \<and> MapSpecName tm' = n
                \<and> \<not> (\<exists>v. MapSpecValue tm' = Some v \<and> isStruct (btf (snd w) v))))"
proof (intro conjI allI impI)
  note sub = tracerFindings_in_findings[OF assms(1)]
  note val = validateTraceMap_value[OF assms(3), of "btf (snd w)"]
  show "MapNoValueBTF (MapSpecName tm) \<in> set (findings w)" if "MapSpecValue tm = None"
    using that assms(2) val by (intro sub) (simp add: set_tracerFindings)
  show "MapValueNotStruct (MapSpecName tm) \<in> set (findings w)"
    if "MapSpecValue tm = Some v" "\<not> isStruct (btf (snd w) v)" for v
    using that assms(2) val by (intro sub) (simp add: set_tracerFindings)
  show "validateTraceMap (btf (snd w)) tm = None"
    if "MapSpecValue tm = Some v" "isStruct (btf (snd w) v)" for v
    using that val by simp
  show "\<exists>(name', tracer') \<in> set (entries (Tracers (fst w))). \<exists>tm'.
          map_of (Maps (snd w)) (MapName tracer') = Some tm' \<and> MapSpecName tm' = n
          \<and> \<not> (\<exists>v. MapSpecValue tm' = Some v \<and> isStruct (btf (snd w) v))"
    if "MapNoValueBTF n \<in> set (findings w) \<or> MapValueNotStruct n \<in> set (findings w)" for n
  proof -
    from that obtain e where e: "e \<in> set (findings w)" "e = MapNoValueBTF n \<or> e = MapValueNotStruct n"
      by blast
    from value_error_origin[OF e] obtain name' tracer' tm' where
      "(name', tracer') \<in> set (entries (Tracers (fst w)))"
      "map_of (Maps (snd w)) (MapName tracer') = Some tm'"
      "validateTraceMap (btf (snd w)) tm' = Some e" by auto
    with validateTraceMap_value_error[OF this(3) e(2)] show ?thesis by blast
  qed
qed

theorem Validate_value_must_be_struct_witness:
  "(''first'', \<lparr>MapName = ''events'', StructName = ''event_t''\<rparr>) \<in> set (entries (Tracers (fst (ex_bad, ex_spec))))
   \<and> map_of (Maps (snd (ex_bad, ex_spec))) ''events'' = Some ex_events
   \<and> MapSpecType ex_events = RingBuf
   \<and> MapSpecValue ex_events = Some 7
   \<and> isStruct (btf (snd (ex_bad, ex_spec)) 7)
   \<and> validateTraceMap (btf (snd (ex_bad, ex_spec))) ex_events = None"
proof -
  have 1: "(''first'', \<lparr>MapName = ''events'', StructName = ''event_t''\<rparr>) \<in> set (entries (Tracers (fst (ex_bad, ex_spec))))"
    by (simp add: ex_bad_def entries_def)
  have 2: "map_of (Maps (snd (ex_bad, ex_spec))) (MapName \<lparr>MapName = ''events'', StructName = ''event_t''\<rparr>) = Some ex_events"
    by (simp add: ex_spec_def)
  have 3: "MapSpecType ex_events = RingBuf \<or> MapSpecType ex_events = PerfEventArray"
    by (simp add: ex_events_def)
  have 4: "MapSpecValue ex_events = Some 7" by (simp add: ex_events_def)
  have 5: "isStruct (btf (snd (ex_bad, ex_spec)) 7)" by (simp add: ex_spec_def ex_btf_def isStruct_def)
  from Validate_value_must_be_struct[OF 1 2 3] 4 5
  have "validateTraceMap (btf (snd (ex_bad, ex_spec))) ex_events = None" by blast
  with 1 2 3 4 5 show ?thesis by (simp add: ex_events_def)
qed

text \<open>
  C5 as stated fails: the value type of the map \<open>aliased\<close> is a typedef whose
  underlying type is the structure \<open>event_t\<close>, and \<open>Validate\<close> reports that the
  value of the map is no structure.
\<close>

theorem Validate_typedef_of_struct_counterexample:
  "(''aliased'', \<lparr>MapName = ''aliased'', StructName = ''event_t''\<rparr>) \<in> set (entries (Tracers ex_alias_doc))
   \<and> map_of (Maps ex_spec) ''aliased'' = Some ex_aliased
   \<and> MapSpecType ex_aliased = RingBuf
   \<and> MapSpecValue ex_aliased = Some 11
   \<and> getUnderlyingType ex_btf 11 = Some (7, None)
   \<and> isStruct (ex_btf 7)
   \<and> fst (Validate (ex_alias_doc, ex_spec)) = Some (MultiError [MapValueNotStruct ''aliased''])"
proof -
  have "getUnderlyingType ex_btf 11 = Some (7, None)"
    by (simp add: getUnderlyingType.simps ex_btf_def)
  moreover have "isStruct (ex_btf 7)" by (simp add: ex_btf_def isStruct_def)
  ultimately show ?thesis
    using ex_alias_Validate by (simp add: ex_alias_doc_def ex_spec_def ex_aliased_def entries_def)
qed

section \<open>Populator: what it adds\<close>

lemma FieldName_newField [simp]: "FieldName (newField n w) = n"
  by (simp add: newField_def)

lemma populateStruct_loop_appends:
  "populateStruct_loop b ex ms fs = Some fs' \<Longrightarrow>
   \<exists>new. fs' = fs @ new \<and> map FieldName new = map MemberName (filter (synthesized b ex) ms)"
proof (induction ms arbitrary: fs)
  case Nil
  then show ?case by simp
next
  case (Cons mem ms)
  show ?case
  proof (cases "synthesized b ex mem")
    case False
    with Cons.prems have "populateStruct_loop b ex ms fs = Some fs'"
      by (auto simp: synthesized_def split: if_splits)
    from Cons.IH[OF this] False show ?thesis by simp
  next
    case True
    with Cons.prems obtain w where w: "getColumnSize b (MemberType mem) = Some w"
      and rest: "populateStruct_loop b ex ms (fs @ [newField (MemberName mem) w]) = Some fs'"
      by (auto simp: synthesized_def split: option.splits)
    from Cons.IH[OF rest] obtain new where
      "fs' = (fs @ [newField (MemberName mem) w]) @ new"
      "map FieldName new = map MemberName (filter (synthesized b ex) ms)" by blast
    with True have "fs' = fs @ (newField (MemberName mem) w # new)
        \<and> map FieldName (newField (MemberName mem) w # new) = map MemberName (filter (synthesized b ex) (mem # ms))"
      by simp
    then show ?thesis by blast
  qed
qed

lemma populateStruct_loop_noop:
  "\<forall>mem\<in>set ms. \<not> synthesized b ex mem \<Longrightarrow> populateStruct_loop b ex ms fs = Some fs"
  by (induction ms) (auto simp: synthesized_def)

lemma populateStruct_loop_again:
  assumes "populateStruct_loop b (set (map FieldName fs)) ms fs = Some fs'"
  shows "populateStruct_loop b (set (map FieldName fs')) ms fs' = Some fs'"
proof (rule populateStruct_loop_noop, rule ballI)
  fix mem assume mem: "mem \<in> set ms"
  from populateStruct_loop_appends[OF assms] obtain new where
    fs': "fs' = fs @ new"
    and new: "map FieldName new = map MemberName (filter (synthesized b (set (map FieldName fs))) ms)"
    by blast
  show "\<not> synthesized b (set (map FieldName fs')) mem"
  proof (cases "synthesized b (set (map FieldName fs)) mem")
    case True
    with mem have "MemberName mem \<in> set (map MemberName (filter (synthesized b (set (map FieldName fs))) ms))"
      by simp
    with new have "MemberName mem \<in> set (map FieldName new)" by simp
    with fs' show ?thesis by (simp add: synthesized_def)
  next
    case False
    with fs' show ?thesis by (auto simp: synthesized_def)
  qed
qed

lemma populateStruct_loop_returns:
  "\<forall>member\<in>set ms. \<exists>k u. resolvesIn b k (MemberType member) = Some u \<Longrightarrow>
   \<exists>fs'. populateStruct_loop b ex ms fs = Some fs'"
proof (induction ms arbitrary: fs)
  case Nil
  then show ?case by simp
next
  case (Cons member ms)
  then obtain w where "getColumnSize b (MemberType member) = Some w"
    using getColumnSize_returns by (metis list.set_intros(1))
  with Cons show ?case by simp
qed

lemma lookup_Some_update [simp]: "lookup (Some (AList.update k v al)) k = Some v"
  by (simp add: lookup_def entries_def update_conv')

lemma populateStruct_result:
  assumes "populateStruct b m s ms = Some (e, m')"
  shows "\<exists>fs'. populateStruct_loop b (set (map FieldName (Fields (structOf m s)))) ms (Fields (structOf m s)) = Some fs'
      \<and> e = None
      \<and> m' = m\<lparr>Structs := Some (AList.update s ((structOf m s)\<lparr>Fields := fs'\<rparr>) (entries (Structs m)))\<rparr>"
  using assms
  by (cases "Structs m")
     (auto simp: populateStruct_def structOf_def lookup_def entries_def Let_def split: option.splits)

lemma populateStruct_idem:
  assumes "populateStruct b m s ms = Some (e, m')"
  shows "populateStruct b m' s ms = Some (e, m')"
proof -
  from populateStruct_result[OF assms] obtain fs' where
    loop: "populateStruct_loop b (set (map FieldName (Fields (structOf m s)))) ms (Fields (structOf m s)) = Some fs'"
    and e: "e = None"
    and m': "m' = m\<lparr>Structs := Some (AList.update s ((structOf m s)\<lparr>Fields := fs'\<rparr>) (entries (Structs m)))\<rparr>"
    by blast
  have again: "populateStruct_loop b (set (map FieldName fs')) ms fs' = Some fs'"
    using populateStruct_loop_again[OF loop] .
  show ?thesis
    using again by (simp add: populateStruct_def m' e entries_def)
qed

lemma populateStruct_frame:
  assumes "populateStruct b m s ms = Some (e, m')"
  shows "Name m' = Name m" "Description m' = Description m" "Tracers m' = Tracers m"
    "Structs m' \<noteq> None" "e = None"
  using populateStruct_result[OF assms] by auto

lemma populateStruct_returns:
  "\<forall>member\<in>set ms. \<exists>k u. resolvesIn b k (MemberType member) = Some u \<Longrightarrow>
   \<exists>m'. populateStruct b m n ms = Some (None, m')"
proof -
  assume a: "\<forall>member\<in>set ms. \<exists>k u. resolvesIn b k (MemberType member) = Some u"
  let ?m1 = "if Structs m = None then m\<lparr>Structs := Some []\<rparr> else m"
  let ?gs = "case lookup (Structs ?m1) n of None \<Rightarrow> \<lparr>Fields = []\<rparr> | Some s \<Rightarrow> s"
  from populateStruct_loop_returns[OF a] obtain fs' where
    "populateStruct_loop b (set (map FieldName (Fields ?gs))) ms (Fields ?gs) = Some fs'"
    by blast
  then show ?thesis
    unfolding populateStruct_def Let_def by simp
qed

lemma structOf_initialized [simp]: "structOf (initialized m) s = structOf m s"
  by (simp add: structOf_def initialized_def lookup_def entries_def)

lemma structOf_Tracers_update [simp]: "structOf (m\<lparr>Tracers := x\<rparr>) s = structOf m s"
  by (simp add: structOf_def)

lemma populateStruct_fields:
  assumes "populateStruct b m n ms = Some (e, m')"
  shows "\<exists>new. map FieldName new =
            map MemberName (filter (synthesized b (FieldName ` set (Fields (structOf m n)))) ms)
          \<and> (\<forall>s. Fields (structOf m' s) = Fields (structOf m s) @ (if s = n then new else []))"
proof -
  from populateStruct_result[OF assms] obtain fs' where
    loop: "populateStruct_loop b (set (map FieldName (Fields (structOf m n)))) ms (Fields (structOf m n)) = Some fs'"
    and m': "m' = m\<lparr>Structs := Some (AList.update n ((structOf m n)\<lparr>Fields := fs'\<rparr>) (entries (Structs m)))\<rparr>"
    by blast
  from populateStruct_loop_appends[OF loop] obtain new where
    fs': "fs' = Fields (structOf m n) @ new"
    and new: "map FieldName new = map MemberName (filter (synthesized b (set (map FieldName (Fields (structOf m n))))) ms)"
    by blast
  have "Fields (structOf m' s) = Fields (structOf m s) @ (if s = n then new else [])" for s
    by (simp add: m' fs' structOf_def lookup_def entries_def update_conv')
  with new show ?thesis by auto
qed

lemma populateTracers_cases:
  assumes "populateTracers m spec = Some (e, m')"
  obtains
    (nomap) "getTracerMapFromeBPF spec = None" "e = None" "m' = m"
  | (invalid) tm err where "getTracerMapFromeBPF spec = Some tm"
      "validateTraceMap (btf spec) tm = Some err"
      "e = Some (Wrapped ''trace map is invalid'' err)" "m' = m"
  | (found) tm v n ms where "getTracerMapFromeBPF spec = Some tm"
      "validateTraceMap (btf spec) tm = None" "MapSpecValue tm = Some v"
      "btf spec v = btf_Struct n ms"
      "list_ex (\<lambda>(_, t). MapName t = MapSpecName tm) (entries (Tracers m))"
      "populateStruct (btf spec) m n ms = Some (None, m')" "e = None"
  | (added) tm v n ms al where "getTracerMapFromeBPF spec = Some tm"
      "validateTraceMap (btf spec) tm = None" "MapSpecValue tm = Some v"
      "btf spec v = btf_Struct n ms"
      "\<not> list_ex (\<lambda>(_, t). MapName t = MapSpecName tm) (entries (Tracers m))"
      "Tracers m = Some al"
      "populateStruct (btf spec)
         (m\<lparr>Tracers := Some (AList.update (MapSpecName tm)
            \<lparr>MapName = MapSpecName tm, StructName = n\<rparr> al)\<rparr>) n ms = Some (None, m')"
      "e = None"
proof (cases "getTracerMapFromeBPF spec")
  case None
  with assms show ?thesis by (intro nomap) (auto simp: populateTracers_def)
next
  case (Some tm)
  note tm = this
  show ?thesis
  proof (cases "validateTraceMap (btf spec) tm")
    case (Some err)
    with tm assms show ?thesis by (intro invalid[of tm err]) (auto simp: populateTracers_def)
  next
    case None
    note valid = this
    from assms tm valid obtain v where v: "MapSpecValue tm = Some v"
      by (cases "MapSpecValue tm") (auto simp: populateTracers_def)
    from assms tm valid v obtain n ms where st: "btf spec v = btf_Struct n ms"
      by (cases "btf spec v") (auto simp: populateTracers_def)
    show ?thesis
    proof (cases "list_ex (\<lambda>(_, t). MapName t = MapSpecName tm) (entries (Tracers m))")
      case True
      with assms tm valid v st have "populateStruct (btf spec) m n ms = Some (None, m') \<and> e = None"
        by (auto simp: populateTracers_def split: option.splits dest: populateStruct_frame(5))
      with True tm valid v st show ?thesis by (intro found[of tm v n ms]) auto
    next
      case False
      with assms tm valid v st obtain al where al: "Tracers m = Some al"
        by (cases "Tracers m") (auto simp: populateTracers_def)
      with False assms tm valid v st have "populateStruct (btf spec)
         (m\<lparr>Tracers := Some (AList.update (MapSpecName tm)
            \<lparr>MapName = MapSpecName tm, StructName = n\<rparr> al)\<rparr>) n ms = Some (None, m') \<and> e = None"
        by (auto simp: populateTracers_def split: option.splits dest: populateStruct_frame(5))
      with False al tm valid v st show ?thesis by (intro added[of tm v n ms al]) auto
    qed
  qed
qed

lemma populateTracers_found:
  "getTracerMapFromeBPF spec = Some tm \<Longrightarrow> validateTraceMap (btf spec) tm = None \<Longrightarrow>
   MapSpecValue tm = Some v \<Longrightarrow> btf spec v = btf_Struct n ms \<Longrightarrow>
   list_ex (\<lambda>(_, t). MapName t = MapSpecName tm) (entries (Tracers m)) \<Longrightarrow>
   populateStruct (btf spec) m n ms = Some (None, m') \<Longrightarrow>
   populateTracers m spec = Some (None, m')"
  by (simp add: populateTracers_def)

lemma list_ex_update:
  "list_ex (\<lambda>(_, t). MapName t = k) (AList.update k \<lparr>MapName = k, StructName = n\<rparr> al)"
  by (induction al) auto

lemma list_ex_MapName:
  "list_ex (\<lambda>(_, t). MapName t = k) al \<longleftrightarrow> (\<exists>t \<in> snd ` set al. MapName t = k)"
  by (force simp: list_ex_iff)

lemma populateTracers_idem:
  assumes "populateTracers m spec = Some (e, m')"
  shows "populateTracers m' spec = Some (e, m')"
  using assms
proof (cases rule: populateTracers_cases)
  case nomap
  with assms show ?thesis by simp
next
  case (invalid tm err)
  with assms show ?thesis by simp
next
  case (found tm v n ms)
  from populateStruct_frame(3)[OF found(6)] found(5)
  have "list_ex (\<lambda>(_, t). MapName t = MapSpecName tm) (entries (Tracers m'))" by simp
  with found populateStruct_idem[OF found(6)] show ?thesis
    by (simp add: populateTracers_found)
next
  case (added tm v n ms al)
  from populateStruct_frame(3)[OF added(7)]
  have "list_ex (\<lambda>(_, t). MapName t = MapSpecName tm) (entries (Tracers m'))"
    by (simp add: entries_def list_ex_update)
  with added populateStruct_idem[OF added(7)] show ?thesis
    by (simp add: populateTracers_found)
qed

lemma populateTracers_frame:
  assumes "populateTracers m spec = Some (e, m')"
  shows "Name m' = Name m" "Description m' = Description m"
    "Tracers m \<noteq> None \<Longrightarrow> Tracers m' \<noteq> None" "Structs m \<noteq> None \<Longrightarrow> Structs m' \<noteq> None"
proof -
  from assms show "Name m' = Name m"
    by (cases rule: populateTracers_cases) (simp_all add: populateStruct_frame)
  from assms show "Description m' = Description m"
    by (cases rule: populateTracers_cases) (simp_all add: populateStruct_frame)
  from assms show "Tracers m \<noteq> None \<Longrightarrow> Tracers m' \<noteq> None"
    by (cases rule: populateTracers_cases) (simp_all add: populateStruct_frame)
  from assms show "Structs m \<noteq> None \<Longrightarrow> Structs m' \<noteq> None"
    by (cases rule: populateTracers_cases) (simp_all add: populateStruct_frame)
qed

lemma populateTracers_fields:
  assumes "populateTracers m spec = Some (e, m')"
  shows "\<exists>new. Fields (structOf m' s) = Fields (structOf m s) @ new
      \<and> (\<forall>f\<in>set new. \<exists>tm v n ms member.
            getTracerMapFromeBPF spec = Some tm \<and> MapSpecValue tm = Some v
            \<and> btf spec v = btf_Struct n ms \<and> s = n \<and> member \<in> set ms
            \<and> FieldName f = MemberName member
            \<and> synthesized (btf spec) (FieldName ` set (Fields (structOf m s))) member)"
proof -
  have key: ?thesis
    if tm: "getTracerMapFromeBPF spec = Some tm" and v: "MapSpecValue tm = Some v"
      and st: "btf spec v = btf_Struct n ms"
      and ps: "populateStruct (btf spec) m1 n ms = Some (None, m')"
      and same: "\<And>s. structOf m1 s = structOf m s"
    for tm v n ms m1
  proof -
    from populateStruct_fields[OF ps] same obtain new where
      new: "map FieldName new =
            map MemberName (filter (synthesized (btf spec) (FieldName ` set (Fields (structOf m n)))) ms)"
      and flds: "\<And>s. Fields (structOf m' s) = Fields (structOf m s) @ (if s = n then new else [])"
      by auto
    show ?thesis
    proof (cases "s = n")
      case False
      with flds[of s] show ?thesis by simp
    next
      case True
      have "\<exists>member. member \<in> set ms \<and> FieldName f = MemberName member
            \<and> synthesized (btf spec) (FieldName ` set (Fields (structOf m s))) member"
        if "f \<in> set new" for f
      proof -
        from that have "FieldName f \<in> set (map FieldName new)" by simp
        with new True show ?thesis by auto
      qed
      with flds[of s] True tm v st show ?thesis by auto
    qed
  qed
  from assms show ?thesis
  proof (cases rule: populateTracers_cases)
    case nomap
    then show ?thesis by simp
  next
    case (invalid tm err)
    then show ?thesis by simp
  next
    case (found tm v n ms)
    then show ?thesis by (intro key[of tm v n ms m]) simp_all
  next
    case (added tm v n ms al)
    then show ?thesis
      by (intro key[of tm v n ms "m\<lparr>Tracers := Some (AList.update (MapSpecName tm)
            \<lparr>MapName = MapSpecName tm, StructName = n\<rparr> al)\<rparr>"]) simp_all
  qed
qed

lemma populateTracers_has_tracer:
  assumes "populateTracers m spec = Some (e, m')" "getTracerMapFromeBPF spec = Some tm"
    "validateTraceMap (btf spec) tm = None"
  shows "\<exists>t \<in> snd ` set (entries (Tracers m')). MapName t = MapSpecName tm"
  using assms(1)
proof (cases rule: populateTracers_cases)
  case nomap
  with assms show ?thesis by simp
next
  case (invalid tm' err)
  with assms show ?thesis by simp
next
  case (found tm' v n ms)
  with assms populateStruct_frame(3)[OF found(6)] show ?thesis
    by (simp add: list_ex_MapName)
next
  case (added tm' v n ms al)
  with assms populateStruct_frame(3)[OF added(7)]
    list_ex_update[of "MapSpecName tm" n al] show ?thesis
    by (simp add: list_ex_MapName entries_def)
qed

lemma Populate_unfold:
  "Populate m spec =
     (case populateTracers (initialized m) spec of
        None \<Rightarrow> None
      | Some (Some err, m5) \<Rightarrow> Some (Some (Wrapped ''handling trace maps'' err), m5)
      | Some (None, m5) \<Rightarrow> Some (None, m5))"
proof -
  have "(let m1 = (if Name m = [] then m\<lparr>Name := ''TODO: Fill the gadget name''\<rparr> else m);
          m2 = (if Description m1 = [] then m1\<lparr>Description := ''TODO: Fill the gadget description''\<rparr> else m1);
          m3 = (if Tracers m2 = None then m2\<lparr>Tracers := Some []\<rparr> else m2)
        in (if Structs m3 = None then m3\<lparr>Structs := Some []\<rparr> else m3)) = initialized m"
    by (cases "Tracers m"; cases "Structs m") (simp_all add: initialized_def entries_def)
  then show ?thesis
    by (simp add: Populate_def Let_def)
qed

lemma Populate_result:
  "Populate m spec = Some (e, m') \<longleftrightarrow>
     (\<exists>e0. populateTracers (initialized m) spec = Some (e0, m')
        \<and> e = map_option (Wrapped ''handling trace maps'') e0)"
proof (cases "populateTracers (initialized m) spec")
  case None
  then show ?thesis by (simp add: Populate_unfold)
next
  case (Some r)
  then show ?thesis
    by (cases r; cases "fst r") (auto simp: Populate_unfold)
qed

lemma initialized_fixed:
  "Name m \<noteq> [] \<Longrightarrow> Description m \<noteq> [] \<Longrightarrow> Tracers m \<noteq> None \<Longrightarrow> Structs m \<noteq> None \<Longrightarrow>
   initialized m = m"
  by (auto simp: initialized_def entries_def)

text \<open>
  \<open>Populate\<close> returns whenever the alias chain of the type of every member of the
  located structure ends.
\<close>

lemma Populate_returns:
  assumes "\<forall>tm v n ms. getTracerMapFromeBPF spec = Some tm \<longrightarrow> MapSpecValue tm = Some v \<longrightarrow>
             btf spec v = btf_Struct n ms \<longrightarrow>
             (\<forall>member\<in>set ms. \<exists>k u. resolvesIn (btf spec) k (MemberType member) = Some u)"
  shows "\<exists>e m'. Populate m spec = Some (e, m')"
proof -
  have "\<exists>e m'. populateTracers (initialized m) spec = Some (e, m')"
  proof (cases "getTracerMapFromeBPF spec")
    case None
    then show ?thesis by (simp add: populateTracers_def)
  next
    case (Some tm)
    note tm = this
    show ?thesis
    proof (cases "validateTraceMap (btf spec) tm")
      case (Some err)
      with tm show ?thesis by (simp add: populateTracers_def)
    next
      case None
      from validateTraceMap_None[OF None] obtain v n ms where
        v: "MapSpecValue tm = Some v" and st: "btf spec v = btf_Struct n ms" by blast
      with assms tm have res: "\<forall>member\<in>set ms. \<exists>k u. resolvesIn (btf spec) k (MemberType member) = Some u"
        by blast
      have tr: "Tracers (initialized m) = Some (entries (Tracers m))"
        by (simp add: initialized_def)
      show ?thesis
      proof (cases "list_ex (\<lambda>(_, t). MapName t = MapSpecName tm) (entries (Tracers (initialized m)))")
        case True
        from populateStruct_returns[OF res, of "initialized m" n] obtain m' where
          "populateStruct (btf spec) (initialized m) n ms = Some (None, m')" by blast
        with True tm None v st show ?thesis by (simp add: populateTracers_def)
      next
        case False
        from populateStruct_returns[OF res, of "(initialized m)\<lparr>Tracers := Some (AList.update (MapSpecName tm)
            \<lparr>MapName = MapSpecName tm, StructName = n\<rparr> (entries (Tracers m)))\<rparr>" n] obtain m' where
          "populateStruct (btf spec) ((initialized m)\<lparr>Tracers := Some (AList.update (MapSpecName tm)
            \<lparr>MapName = MapSpecName tm, StructName = n\<rparr> (entries (Tracers m)))\<rparr>) n ms = Some (None, m')" by blast
        with False tm None v st tr show ?thesis by (simp add: populateTracers_def)
      qed
    qed
  qed
  then show ?thesis
    unfolding Populate_result by blast
qed

lemma Populate_no_trace_map:
  "getTracerMapFromeBPF spec = None \<Longrightarrow> Populate m spec = Some (None, initialized m)"
  by (simp add: Populate_unfold populateTracers_def)

lemma ex_Populate: "Populate ex_doc ex_spec = Some (None, ex_populated)"
  by (simp add: populate_defs ex_spec_def ex_btf_def ex_doc_def ex_events_def ex_populated_def)


lemma ex_unmarked_Populate:
  "Populate ex_doc ex_unmarked =
       Some (None,
         \<lparr>Name = ''TODO: Fill the gadget name'',
          Description = ''TODO: Fill the gadget description'',
          Tracers = Some [([], \<lparr>MapName = [], StructName = ''event_t''\<rparr>)],
          Structs = Some [(''event_t'', \<lparr>Fields = [newField ''pid'' 10, newField ''comm'' 16]\<rparr>)]\<rparr>)"
  by (simp add: populate_defs ex_unmarked_def ex_btf_def ex_doc_def ex_unnamed_def)

text \<open>
  What \<open>Populate\<close> keeps: the names of the tracers and of the structures, every
  field at its place with all it holds, and every tracer but the one stored under the
  name of the located map when no tracer of the document uses that map.
\<close>

lemma populateStruct_struct_keys:
  assumes "populateStruct b m n ms = Some (e, m')"
  shows "fst ` set (entries (Structs m)) \<subseteq> fst ` set (entries (Structs m'))"
proof -
  from populateStruct_result[OF assms] obtain v where
    "Structs m' = Some (AList.update n v (entries (Structs m)))" by auto
  then show ?thesis
    by (simp add: entries_def[of "Some _"] dom_update) blast
qed

lemma populateTracers_additive:
  assumes "populateTracers m spec = Some (e, m')"
  shows "fst ` set (entries (Tracers m)) \<subseteq> fst ` set (entries (Tracers m'))"
    and "fst ` set (entries (Structs m)) \<subseteq> fst ` set (entries (Structs m'))"
    and "lookup (Tracers m) k = Some t \<Longrightarrow>
           lookup (Tracers m') k = Some t
           \<or> (\<exists>tm. getTracerMapFromeBPF spec = Some tm \<and> k = MapSpecName tm \<and> MapName t \<noteq> MapSpecName tm)"
proof -
  from assms show "fst ` set (entries (Tracers m)) \<subseteq> fst ` set (entries (Tracers m'))"
  proof (cases rule: populateTracers_cases)
    case (found tm v n ms)
    with populateStruct_frame(3)[OF found(6)] show ?thesis by simp
  next
    case (added tm v n ms al)
    with populateStruct_frame(3)[OF added(7)] show ?thesis
      by (auto simp: entries_def dom_update)
  qed simp_all
  from assms show "fst ` set (entries (Structs m)) \<subseteq> fst ` set (entries (Structs m'))"
  proof (cases rule: populateTracers_cases)
    case (found tm v n ms)
    with populateStruct_struct_keys[OF found(6)] show ?thesis by simp
  next
    case (added tm v n ms al)
    with populateStruct_struct_keys[OF added(7)] show ?thesis by simp
  qed simp_all
  assume t: "lookup (Tracers m) k = Some t"
  from assms show "lookup (Tracers m') k = Some t
           \<or> (\<exists>tm. getTracerMapFromeBPF spec = Some tm \<and> k = MapSpecName tm \<and> MapName t \<noteq> MapSpecName tm)"
  proof (cases rule: populateTracers_cases)
    case nomap
    with t show ?thesis by simp
  next
    case (invalid tm err)
    with t show ?thesis by simp
  next
    case (found tm v n ms)
    with populateStruct_frame(3)[OF found(6)] t show ?thesis by simp
  next
    case (added tm v n ms al)
    from t added(6) have in_al: "(k, t) \<in> set al"
      by (auto simp: lookup_def entries_def dest: map_of_SomeD)
    with added(5,6) have ne: "MapName t \<noteq> MapSpecName tm"
      by (auto simp: list_ex_iff entries_def)
    show ?thesis
    proof (cases "k = MapSpecName tm")
      case True
      with ne added(1) show ?thesis by simp
    next
      case False
      with populateStruct_frame(3)[OF added(7)] t added(6) show ?thesis
        by (simp add: lookup_def entries_def update_conv')
    qed
  qed
qed

lemma entries_initialized [simp]:
  "entries (Tracers (initialized m)) = entries (Tracers m)"
  "entries (Structs (initialized m)) = entries (Structs m)"
  by (simp_all add: initialized_def entries_def)

lemma Populate_additive:
  assumes "Populate m spec = Some (e, m')"
  shows "fst ` set (entries (Tracers m)) \<subseteq> fst ` set (entries (Tracers m'))"
    and "fst ` set (entries (Structs m)) \<subseteq> fst ` set (entries (Structs m'))"
    and "\<exists>new. Fields (structOf m' s) = Fields (structOf m s) @ new"
    and "lookup (Tracers m) k = Some t \<Longrightarrow>
           lookup (Tracers m') k = Some t
           \<or> (\<exists>tm. getTracerMapFromeBPF spec = Some tm \<and> k = MapSpecName tm \<and> MapName t \<noteq> MapSpecName tm)"
proof -
  from assms obtain e0 where pt: "populateTracers (initialized m) spec = Some (e0, m')"
    unfolding Populate_result by blast
  from populateTracers_additive(1)[OF pt]
  show "fst ` set (entries (Tracers m)) \<subseteq> fst ` set (entries (Tracers m'))" by simp
  from populateTracers_additive(2)[OF pt]
  show "fst ` set (entries (Structs m)) \<subseteq> fst ` set (entries (Structs m'))" by simp
  from populateTracers_fields[OF pt, of s]
  show "\<exists>new. Fields (structOf m' s) = Fields (structOf m s) @ new" by auto
  assume "lookup (Tracers m) k = Some t"
  then have "lookup (Tracers (initialized m)) k = Some t" by (simp add: lookup_def)
  from populateTracers_additive(3)[OF pt this]
  show "lookup (Tracers m') k = Some t
           \<or> (\<exists>tm. getTracerMapFromeBPF spec = Some tm \<and> k = MapSpecName tm \<and> MapName t \<noteq> MapSpecName tm)" .
qed

text \<open>
  C1. \<open>Populate\<close> is idempotent: when a call returns, a second call on the document
  it left, with the same compiled object, returns the same error and leaves the same
  document.
\<close>

theorem Populate_idempotent:
  assumes "Populate m spec = Some (e, m')"
  shows "Populate m' spec = Some (e, m')"
proof -
  from assms obtain e0 where pt: "populateTracers (initialized m) spec = Some (e0, m')"
    and e: "e = map_option (Wrapped ''handling trace maps'') e0"
    unfolding Populate_result by blast
  have "Name (initialized m) \<noteq> []" "Description (initialized m) \<noteq> []"
    "Tracers (initialized m) \<noteq> None" "Structs (initialized m) \<noteq> None"
    by (simp_all add: initialized_def)
  with populateTracers_frame[OF pt] have "initialized m' = m'"
    by (intro initialized_fixed) simp_all
  with populateTracers_idem[OF pt] e show ?thesis
    unfolding Populate_result by simp
qed

theorem Populate_idempotent_witness:
  "Populate ex_doc ex_spec = Some (None, ex_populated)
   \<and> Populate ex_populated ex_spec = Some (None, ex_populated)"
  using Populate_idempotent [OF ex_Populate] ex_Populate by simp




text \<open>
  C9. The locator answers the empty string when no variable carries the prefix, and
  also when the first prefixed variable is named by the bare prefix. In the first case
  the located trace map is whatever the map table holds under the empty name: if that
  map passes \<open>validateTraceMap\<close>, the document has a tracer for it once \<open>Populate\<close>
  has returned.
\<close>

theorem not_found_is_empty_name:
  "((\<forall>t\<in>set (Types spec). \<forall>n ty. btf spec t = btf_Var n ty \<longrightarrow> \<not> HasPrefix n traceMapPrefix) \<longrightarrow>
      getGadgetIdentByPrefix spec traceMapPrefix = []
      \<and> getTracerMapFromeBPF spec = map_of (Maps spec) []
      \<and> (\<forall>tm e m'. map_of (Maps spec) [] = Some tm \<longrightarrow> validateTraceMap (btf spec) tm = None \<longrightarrow>
            Populate m spec = Some (e, m') \<longrightarrow>
            (\<exists>t \<in> snd ` set (entries (Tracers m')). MapName t = MapSpecName tm)))
   \<and> (\<forall>t ty ts. btf spec t = btf_Var traceMapPrefix ty \<longrightarrow>
         getGadgetIdentByPrefix (spec\<lparr>Types := t # ts\<rparr>) traceMapPrefix = [])"
proof (intro conjI impI allI)
  assume none: "\<forall>t\<in>set (Types spec). \<forall>n ty. btf spec t = btf_Var n ty \<longrightarrow> \<not> HasPrefix n traceMapPrefix"
  then show ident: "getGadgetIdentByPrefix spec traceMapPrefix = []"
    by (simp add: getGadgetIdentByPrefix_def getGadgetIdentByPrefix_loop_none)
  then show tmap: "getTracerMapFromeBPF spec = map_of (Maps spec) []"
    by (simp add: getTracerMapFromeBPF_def)
  fix tm e m'
  assume "map_of (Maps spec) [] = Some tm" "validateTraceMap (btf spec) tm = None"
    "Populate m spec = Some (e, m')"
  with tmap show "\<exists>t \<in> snd ` set (entries (Tracers m')). MapName t = MapSpecName tm"
    unfolding Populate_result by (auto dest: populateTracers_has_tracer)
next
  fix t ty ts
  assume "btf spec t = btf_Var traceMapPrefix ty"
  then show "getGadgetIdentByPrefix (spec\<lparr>Types := t # ts\<rparr>) traceMapPrefix = []"
    by (simp add: getGadgetIdentByPrefix_def HasPrefix_def TrimPrefix_def)
qed

theorem not_found_is_empty_name_witness:
  "filter (\<lambda>t. isVar (btf ex_unmarked t)) (Types ex_unmarked) = []
   \<and> map_of (Maps ex_unmarked) [] = Some ex_unnamed
   \<and> getGadgetIdentByPrefix ex_unmarked traceMapPrefix = []
   \<and> getTracerMapFromeBPF ex_unmarked = Some ex_unnamed
   \<and> entries (Tracers ex_doc) = []
   \<and> (\<exists>e m' t. Populate ex_doc ex_unmarked = Some (e, m')
         \<and> t \<in> snd ` set (entries (Tracers m')) \<and> MapName t = MapSpecName ex_unnamed)"
proof -
  have vars: "filter (\<lambda>t. isVar (btf ex_unmarked t)) (Types ex_unmarked) = []"
    by (simp add: ex_unmarked_def ex_btf_def isVar_def)
  have none: "\<forall>t\<in>set (Types ex_unmarked). \<forall>n ty. btf ex_unmarked t = btf_Var n ty \<longrightarrow> \<not> HasPrefix n traceMapPrefix"
    by (simp add: ex_unmarked_def ex_btf_def)
  have m: "map_of (Maps ex_unmarked) [] = Some ex_unnamed"
    by (simp add: ex_unmarked_def)
  have v: "validateTraceMap (btf ex_unmarked) ex_unnamed = None"
    by (simp add: validateTraceMap_def ex_unmarked_def ex_unnamed_def ex_btf_def)
  have d: "entries (Tracers ex_doc) = []"
    by (simp add: ex_doc_def entries_def)
  from not_found_is_empty_name [of ex_unmarked ex_doc] none m v ex_unmarked_Populate
  have "getGadgetIdentByPrefix ex_unmarked traceMapPrefix = []
      \<and> getTracerMapFromeBPF ex_unmarked = Some ex_unnamed
      \<and> (\<exists>e m'. Populate ex_doc ex_unmarked = Some (e, m')
         \<and> (\<exists>t \<in> snd ` set (entries (Tracers m')). MapName t = MapSpecName ex_unnamed))"
    by (metis (no_types, lifting))
  with vars m d show ?thesis by blast
qed

text \<open>
  C7 fails on the code. The type table of \<open>ex_unmarked\<close> has no variable at all, its
  map table has a map under the empty name, and \<open>Populate\<close> adds a tracer and a
  structure to the empty document instead of leaving both maps empty.
\<close>

theorem Populate_unmarked_object_adds_tracer:
  "filter (\<lambda>t. isVar (btf ex_unmarked t)) (Types ex_unmarked) = []
   \<and> Populate ex_doc ex_unmarked =
       Some (None,
         \<lparr>Name = ''TODO: Fill the gadget name'',
          Description = ''TODO: Fill the gadget description'',
          Tracers = Some [([], \<lparr>MapName = [], StructName = ''event_t''\<rparr>)],
          Structs = Some [(''event_t'', \<lparr>Fields = [newField ''pid'' 10, newField ''comm'' 16]\<rparr>)]\<rparr>)"
  by (simp add: populate_defs ex_unmarked_def ex_btf_def ex_doc_def ex_unnamed_def isVar_def)

text \<open>
  C2 fails on the code. The document \<open>ex_clash\<close> has a tracer \<open>events\<close> that is
  bound to the map \<open>other_map\<close>. No tracer of the document uses the located map
  \<open>events\<close>, so \<open>Populate\<close> stores a new tracer under the name of the map and the
  tracer that was there is lost.
\<close>

theorem Populate_overwrites_tracer:
  "lookup (Tracers ex_clash) ''events'' = Some \<lparr>MapName = ''other_map'', StructName = ''other_t''\<rparr>
   \<and> Populate ex_clash ex_spec =
       Some (None, ex_clash
         \<lparr>Tracers := Some [(''events'', \<lparr>MapName = ''events'', StructName = ''event_t''\<rparr>)],
          Structs := Some [(''other_t'', \<lparr>Fields = []\<rparr>),
                           (''event_t'', \<lparr>Fields = [newField ''pid'' 10, newField ''comm'' 16]\<rparr>)]\<rparr>)"
  by (simp add: populate_defs ex_spec_def ex_btf_def ex_clash_def ex_events_def)

end
